theory Spec2Isabelle
  imports Main "HOL-Library.Sublist"
begin

section \<open>LocalGrid: context-window lookup and tokenizer resolution\<close>

text \<open>
  A shallow embedding of \<^verbatim>\<open>src/localgrid/core.py\<close> (class \<^verbatim>\<open>LocalGrid\<close>) and of the
  import statement of \<^verbatim>\<open>src/localgrid/__init__.py\<close>.

  Model identifiers, dictionary keys and paths are only compared, searched and split, so
  they are HOL strings. The text of a stored context value goes through \<^verbatim>\<open>upper\<close> and
  \<^verbatim>\<open>int\<close>, which consult the Unicode database, so it is a list of code points. Python
  integers are unbounded, hence \<^typ>\<open>int\<close>. Exceptions are values of \<open>py_error\<close>.
\<close>

subsection \<open>Values\<close>

datatype py_error =
    ValueError
  | TypeError
  | AttributeError
  | OverflowError
  | ImportError string
  | ModuleNotFoundError string
  | OtherException string

text \<open>A Python \<^verbatim>\<open>str\<close> as its code points; \<open>ascii\<close> embeds a literal.\<close>

type_synonym ustring = "nat list"

definition ascii :: "string \<Rightarrow> ustring" where
  "ascii s = map of_char s"

text \<open>
  A Python \<^verbatim>\<open>float\<close>: a finite one is \<open>m * 2 ^ e\<close> for integers \<open>m\<close> and \<open>e\<close>, the
  others are the two infinities (the flag says negative) and not-a-number.
\<close>

datatype pyfloat = Finite int int | Infinite bool | NaN

text \<open>
  What \<^verbatim>\<open>json.load\<close> yields. An object is an association list read with
  \<^const>\<open>map_of\<close>, as \<^verbatim>\<open>dict.get\<close> reads a dict; like the keys of a dict, the keys of such
  a list are meant to be distinct.
\<close>

datatype json =
    JNull
  | JBool bool
  | JInt int
  | JFloat pyfloat
  | JStr ustring
  | JList "json list"
  | JObj "(string \<times> json) list"

text \<open>
  What the interpreter brings along: of the Unicode database, which code points from 127
  on are whitespace, which are decimal digits and of what value, and the upper-case
  mapping of the code points from 128 on (one to three code points); the limit on the
  number of digits of a conversion between \<^verbatim>\<open>int\<close> and \<^verbatim>\<open>str\<close> (4300 by default, 0 for
  none, as in the versions that have no limit); and the texts \<^verbatim>\<open>str\<close> gives for floats,
  lists and dicts, of which the code only asks whether they contain a letter and what
  integer they spell. Every statement below holds for every such interpreter.
\<close>

record interp =
  uni_space :: "nat \<Rightarrow> bool"
  uni_decimal :: "nat \<Rightarrow> nat option"
  uni_upper :: "nat \<Rightarrow> ustring"
  max_str_digits :: nat
  float_repr :: "pyfloat \<Rightarrow> ustring"
  container_repr :: "json \<Rightarrow> ustring"

subsection \<open>Python builtins used by the code\<close>

text \<open>\<^verbatim>\<open>s.upper()\<close>: the letters a..z move to A..Z, the other code points below 128 stay,
  the rest is mapped by the database.\<close>

definition upper_cp :: "interp \<Rightarrow> nat \<Rightarrow> ustring" where
  "upper_cp I c =
     (if c < 128 then [if 97 \<le> c \<and> c \<le> 122 then c - 32 else c]
      else uni_upper I c)"

definition upper :: "interp \<Rightarrow> ustring \<Rightarrow> ustring" where
  "upper I s = concat (map (upper_cp I) s)"

text \<open>\<^verbatim>\<open>s.replace(c, '')\<close> for a one-character pattern: every occurrence is dropped.\<close>

definition remove_cp :: "nat \<Rightarrow> ustring \<Rightarrow> ustring" where
  "remove_cp c s = filter (\<lambda>x. x \<noteq> c) s"

text \<open>
  \<^verbatim>\<open>int(s)\<close> for a string, base 10. A string that is not pure ASCII is first rewritten:
  code points below 127 stay, whitespace becomes a blank, a decimal digit becomes its
  ASCII digit, and at anything else the text is cut and ends in a question mark. Then:
  leading ASCII whitespace, an optional sign, decimal digits in which single underscores
  may separate digits, trailing whitespace. Anything else is a \<^verbatim>\<open>ValueError\<close>, and so is
  a number of more than 640 digits that exceeds the limit.
\<close>

fun to_ascii :: "interp \<Rightarrow> ustring \<Rightarrow> ustring" where
  "to_ascii I [] = []"
| "to_ascii I (c # cs) =
     (if c < 127 then c # to_ascii I cs
      else if uni_space I c then 32 # to_ascii I cs
      else (case uni_decimal I c of
              Some d \<Rightarrow> (48 + d) # to_ascii I cs
            | None \<Rightarrow> [63]))"

definition is_space :: "nat \<Rightarrow> bool" where
  "is_space c = (c \<in> {9, 10, 11, 12, 13, 32})"

definition is_digit :: "nat \<Rightarrow> bool" where
  "is_digit c = (48 \<le> c \<and> c \<le> 57)"

definition digit_val :: "nat \<Rightarrow> int" where
  "digit_val c = int c - 48"

fun no_double_underscore :: "ustring \<Rightarrow> bool" where
  "no_double_underscore (a # b # cs) =
     (\<not> (a = 95 \<and> b = 95) \<and> no_double_underscore (b # cs))"
| "no_double_underscore cs = True"

definition digits_value :: "ustring \<Rightarrow> int" where
  "digits_value ds = foldl (\<lambda>acc c. 10 * acc + digit_val c) 0 ds"

definition over_limit :: "interp \<Rightarrow> nat \<Rightarrow> nat \<Rightarrow> bool" where
  "over_limit I len digits = (640 < len \<and> 0 < max_str_digits I \<and> max_str_digits I < digits)"

definition int_of_str :: "interp \<Rightarrow> ustring \<Rightarrow> py_error + int" where
  "int_of_str I s =
     (let s0 = (if list_all (\<lambda>c. c < 128) s then s else to_ascii I s);
          s1 = dropWhile is_space s0;
          (sgn, s2) = (case s1 of
                         c # cs \<Rightarrow> if c = 43 then (1, cs)
                                   else if c = 45 then (- 1, cs)
                                   else (1, s1)
                       | [] \<Rightarrow> (1, s1));
          body = takeWhile (\<lambda>c. is_digit c \<or> c = 95) s2;
          rest = dropWhile (\<lambda>c. is_digit c \<or> c = 95) s2;
          digits = filter is_digit body
      in if body = [] \<or> hd body = 95 \<or> last body = 95
            \<or> \<not> no_double_underscore body \<or> \<not> list_all is_space rest
            \<or> over_limit I (length digits) (length digits)
         then Inl ValueError
         else Inr (sgn * digits_value digits))"

text \<open>\<^verbatim>\<open>str(n)\<close> for an integer: its decimal digits, with a minus sign when negative; a
  \<^verbatim>\<open>ValueError\<close> when the text is longer than 640 and the digits exceed the limit.\<close>

function str_of_nonneg :: "int \<Rightarrow> ustring" where
  "str_of_nonneg n =
     (if n < 10 then [48 + nat n]
      else str_of_nonneg (n div 10) @ [48 + nat (n mod 10)])"
  by pat_completeness auto
termination
  by (relation "measure nat") auto

declare str_of_nonneg.simps [simp del]

definition str_of_int :: "interp \<Rightarrow> int \<Rightarrow> py_error + ustring" where
  "str_of_int I i =
     (let digits = str_of_nonneg (abs i);
          text = (if i < 0 then 45 # digits else digits)
      in if over_limit I (length text) (length digits) then Inl ValueError else Inr text)"

text \<open>\<^verbatim>\<open>int(x)\<close> for a float: the value cut towards zero; the infinities and not-a-number
  raise.\<close>

fun int_of_float :: "pyfloat \<Rightarrow> py_error + int" where
  "int_of_float (Finite m e) =
     Inr (if 0 \<le> e then m * 2 ^ nat e
          else if 0 \<le> m then m div 2 ^ nat (- e)
          else - ((- m) div 2 ^ nat (- e)))"
| "int_of_float (Infinite negative) = Inl OverflowError"
| "int_of_float NaN = Inl ValueError"

text \<open>\<^verbatim>\<open>str(x)\<close>, \<^verbatim>\<open>int(x)\<close> and \<^verbatim>\<open>bool(x)\<close> on a loaded JSON value.\<close>

fun py_str :: "interp \<Rightarrow> json \<Rightarrow> py_error + ustring" where
  "py_str I JNull = Inr (ascii ''None'')"
| "py_str I (JBool b) = Inr (ascii (if b then ''True'' else ''False''))"
| "py_str I (JInt i) = str_of_int I i"
| "py_str I (JFloat f) = Inr (float_repr I f)"
| "py_str I (JStr s) = Inr s"
| "py_str I (JList xs) = Inr (container_repr I (JList xs))"
| "py_str I (JObj items) = Inr (container_repr I (JObj items))"

fun py_int :: "interp \<Rightarrow> json \<Rightarrow> py_error + int" where
  "py_int I JNull = Inl TypeError"
| "py_int I (JBool b) = Inr (if b then 1 else 0)"
| "py_int I (JInt i) = Inr i"
| "py_int I (JFloat f) = int_of_float f"
| "py_int I (JStr s) = int_of_str I s"
| "py_int I (JList xs) = Inl TypeError"
| "py_int I (JObj items) = Inl TypeError"

fun truthy :: "json \<Rightarrow> bool" where
  "truthy JNull = False"
| "truthy (JBool b) = b"
| "truthy (JInt i) = (i \<noteq> 0)"
| "truthy (JFloat (Finite m e)) = (m \<noteq> 0)"
| "truthy (JFloat f) = True"
| "truthy (JStr s) = (s \<noteq> [])"
| "truthy (JList xs) = (xs \<noteq> [])"
| "truthy (JObj items) = (items \<noteq> [])"

text \<open>\<^verbatim>\<open>x.get(key)\<close>: only a dict has the method.\<close>

fun py_get :: "json \<Rightarrow> string \<Rightarrow> py_error + json option" where
  "py_get (JObj items) key = Inr (map_of items key)"
| "py_get x key = Inl AttributeError"

text \<open>\<^verbatim>\<open>':' in s\<close> and \<^verbatim>\<open>s.split(':', 1)\<close> (used only when the separator occurs).\<close>

definition has_sep :: "string \<Rightarrow> bool" where
  "has_sep s = (CHR '':'' \<in> set s)"

definition split_first :: "string \<Rightarrow> string \<times> string" where
  "split_first s =
     (takeWhile (\<lambda>c. c \<noteq> CHR '':'') s, drop 1 (dropWhile (\<lambda>c. c \<noteq> CHR '':'') s))"

subsection \<open>The metadata store\<close>

text \<open>
  \<^verbatim>\<open>self._db\<close>, as \<^verbatim>\<open>_load_all_dbs\<close> builds it: provider name to provider data, in
  insertion order; provider data maps a parent name to its model, the fields of a JSON
  object (the load indexes every model with \<^verbatim>\<open>'parent_model'\<close>, so an instance exists
  only when every model is an object). What the fields hold is not constrained.
\<close>

type_synonym provider_data = "(string \<times> (string \<times> json) list) list"

type_synonym store = "(string \<times> provider_data) list"

definition DEFAULT_TOKEN_LIMIT :: int where
  "DEFAULT_TOKEN_LIMIT = 8192"

text \<open>
  \<^verbatim>\<open>provider_data.get(parent_name, {}).get('variants', {}).get(tag)\<close>: \<open>None\<close> when the
  parent, the \<^verbatim>\<open>variants\<close> field or the tag is missing, an \<^verbatim>\<open>AttributeError\<close> when
  the \<^verbatim>\<open>variants\<close> field holds anything but an object.
\<close>

definition tag_data_of :: "provider_data \<Rightarrow> string \<Rightarrow> string \<Rightarrow> py_error + json option" where
  "tag_data_of provider_data parent_name tag =
     (let model = (case map_of provider_data parent_name of None \<Rightarrow> [] | Some entry \<Rightarrow> entry);
          variants = (case map_of model ''variants'' of None \<Rightarrow> JObj [] | Some v \<Rightarrow> v)
      in py_get variants tag)"

text \<open>\<^verbatim>\<open>tag_data.get('context', '8K')\<close>.\<close>

definition context_of :: "json \<Rightarrow> py_error + json" where
  "context_of tag_data =
     (case py_get tag_data ''context'' of
        Inl e \<Rightarrow> Inl e
      | Inr None \<Rightarrow> Inr (JStr (ascii ''8K''))
      | Inr (Some c) \<Rightarrow> Inr c)"

text \<open>The body of the \<^verbatim>\<open>try\<close> block: the value returned, or the exception raised.\<close>

definition interpret_context :: "interp \<Rightarrow> json \<Rightarrow> py_error + int" where
  "interpret_context I context_str =
     (case py_str I context_str of
        Inl e \<Rightarrow> Inl e
      | Inr text \<Rightarrow>
          if 75 \<in> set (upper I text)
          then (case int_of_str I (remove_cp 75 (upper I text)) of
                  Inl e \<Rightarrow> Inl e
                | Inr n \<Rightarrow> Inr (n * 1024))
          else (case py_int I context_str of
                  Inl e \<Rightarrow> Inl e
                | Inr numeric_value \<Rightarrow>
                    if numeric_value \<le> 1000 then Inr (numeric_value * 1024)
                    else Inr numeric_value))"

text \<open>
  The loop over \<^verbatim>\<open>self._db.values()\<close>. A falsy \<^verbatim>\<open>tag_data\<close> is skipped;
  \<^verbatim>\<open>except (ValueError, TypeError): pass\<close> goes on with the next provider, any other
  exception leaves the function, as does one raised outside the \<^verbatim>\<open>try\<close> block.
\<close>

fun scan_providers :: "interp \<Rightarrow> provider_data list \<Rightarrow> string \<Rightarrow> string \<Rightarrow> py_error + int" where
  "scan_providers I [] parent_name tag = Inr DEFAULT_TOKEN_LIMIT"
| "scan_providers I (provider_data # rest) parent_name tag =
     (case tag_data_of provider_data parent_name tag of
        Inl e \<Rightarrow> Inl e
      | Inr None \<Rightarrow> scan_providers I rest parent_name tag
      | Inr (Some tag_data) \<Rightarrow>
          if \<not> truthy tag_data then scan_providers I rest parent_name tag
          else (case context_of tag_data of
                  Inl e \<Rightarrow> Inl e
                | Inr context_str \<Rightarrow>
                    (case interpret_context I context_str of
                       Inr n \<Rightarrow> Inr n
                     | Inl ValueError \<Rightarrow> scan_providers I rest parent_name tag
                     | Inl TypeError \<Rightarrow> scan_providers I rest parent_name tag
                     | Inl e \<Rightarrow> Inl e)))"

definition get_model_token_limit :: "interp \<Rightarrow> store \<Rightarrow> string \<Rightarrow> py_error + int" where
  "get_model_token_limit I data model_name =
     (if has_sep model_name
      then (case split_first model_name of
              (parent_name, tag) \<Rightarrow> scan_providers I (map snd data) parent_name tag)
      else Inr DEFAULT_TOKEN_LIMIT)"

subsection \<open>The tokenizer resolver\<close>

definition FALLBACK_TOKEN_RATIO :: int where
  "FALLBACK_TOKEN_RATIO = 4"

text \<open>
  \<^verbatim>\<open>TOKENIZER_MAP\<close> is a Python set of strings. The members are listed here as the
  source lists them; the order in which \<^verbatim>\<open>for family in self.TOKENIZER_MAP\<close> visits
  them is fixed within one process but not by the language (string hashing is seeded per
  process), so it is a parameter of the model, see \<open>family_order\<close> below.
\<close>

definition TOKENIZER_MAP :: "string list" where
  "TOKENIZER_MAP =
     [''aya'', ''codellama'', ''codestral'', ''command-r'', ''dbrx'', ''deepseek'',
      ''falcon'', ''gemma'', ''granite'', ''llama'', ''mistral'', ''mixtral'', ''olmo'',
      ''phi'', ''qwen'', ''solar'', ''starcoder'', ''yi'']"

text \<open>
  A tokenizer object. \<^verbatim>\<open>count_tokens\<close> tests its truth value, and tells a
  \<^verbatim>\<open>tiktoken.Encoding\<close> from any other object with an \<^verbatim>\<open>encode\<close> attribute, and from an
  object without one. The truth value of an object is what its \<^verbatim>\<open>__bool__\<close> or
  \<^verbatim>\<open>__len__\<close> makes it (a tokenizer with an empty vocabulary is falsy); a
  \<^verbatim>\<open>tiktoken.Encoding\<close> defines neither and is always truthy. The engines are opaque:
  \<open>encode text special\<close> yields the token ids or raises; \<open>special\<close> says whether special
  tokens are interpreted (\<^verbatim>\<open>disallowed_special=()\<close> and \<^verbatim>\<open>add_special_tokens=False\<close>
  both pass \<open>False\<close>).
\<close>

datatype tokenizer =
    TiktokenEncoding "string \<Rightarrow> bool \<Rightarrow> py_error + nat list"
  | HasEncode bool "string \<Rightarrow> bool \<Rightarrow> py_error + nat list"
  | NoEncode bool

fun tokenizer_truthy :: "tokenizer \<Rightarrow> bool" where
  "tokenizer_truthy (TiktokenEncoding encode) = True"
| "tokenizer_truthy (HasEncode truth encode) = truth"
| "tokenizer_truthy (NoEncode truth) = truth"

text \<open>The instance: \<^verbatim>\<open>self._db\<close>, \<^verbatim>\<open>self._tokenizer_cache\<close>, \<^verbatim>\<open>self._default_tokenizer\<close>.\<close>

record grid =
  db :: store
  tokenizer_cache :: "string \<rightharpoonup> tokenizer"
  default_tokenizer :: "tokenizer option"

text \<open>
  \<^verbatim>\<open>__init__\<close>: the store as \<^verbatim>\<open>_load_all_dbs\<close> returned it, an empty cache, and the
  default encoding, \<open>None\<close> when \<^verbatim>\<open>tiktoken.get_encoding\<close> raised.
\<close>

definition init_grid :: "store \<Rightarrow> py_error + (string \<Rightarrow> bool \<Rightarrow> py_error + nat list) \<Rightarrow> grid" where
  "init_grid loaded get_encoding =
     \<lparr>db = loaded, tokenizer_cache = Map.empty,
      default_tokenizer = (case get_encoding of Inl e \<Rightarrow> None | Inr enc \<Rightarrow> Some (TiktokenEncoding enc))\<rparr>"

text \<open>What is fixed for the life of the process, and what a call finds outside it.\<close>

record process =
  base_path :: string
  family_order :: "string list"

record world =
  path_exists :: "string \<Rightarrow> bool"
  from_pretrained :: "string \<Rightarrow> py_error + tokenizer"

text \<open>The calls a resolution makes to the outside, in order, with their outcome.\<close>

datatype event =
    PathExists string bool
  | FromPretrained string bool
  | Warning string

text \<open>\<^verbatim>\<open>os.path.join\<close> (POSIX) for two components.\<close>

definition path_join :: "string \<Rightarrow> string \<Rightarrow> string" where
  "path_join a b =
     (if b \<noteq> [] \<and> hd b = CHR ''/'' then b
      else if a = [] \<or> last a = CHR ''/'' then a @ b
      else a @ CHR ''/'' # b)"

definition tokenizer_path :: "process \<Rightarrow> string \<Rightarrow> string" where
  "tokenizer_path P tokenizer_dir_name =
     path_join (path_join (base_path P) ''tokenizers'') tokenizer_dir_name"

text \<open>The \<^verbatim>\<open>for\<close> loop with its \<^verbatim>\<open>break\<close>: the first family, in iteration order, that is a
  substring of the part before the separator.\<close>

definition detect_family :: "string list \<Rightarrow> string \<Rightarrow> string option" where
  "detect_family order family_name = List.find (\<lambda>family. sublist family family_name) order"

definition get_tokenizer ::
  "process \<Rightarrow> world \<Rightarrow> grid \<Rightarrow> string \<Rightarrow> tokenizer option \<times> grid \<times> event list" where
  "get_tokenizer P W g model_name =
     (if has_sep model_name
      then (case detect_family (family_order P) (fst (split_first model_name)) of
              None \<Rightarrow> (default_tokenizer g, g, [])
            | Some tokenizer_dir_name \<Rightarrow>
                if tokenizer_dir_name = [] then (default_tokenizer g, g, [])
                else (case tokenizer_cache g tokenizer_dir_name of
                        Some cached \<Rightarrow> (Some cached, g, [])
                      | None \<Rightarrow>
                          (let tokenizer_path = tokenizer_path P tokenizer_dir_name
                           in if path_exists W tokenizer_path
                              then (case from_pretrained W tokenizer_path of
                                      Inr tokenizer \<Rightarrow>
                                        (Some tokenizer,
                                         g\<lparr>tokenizer_cache :=
                                             (tokenizer_cache g)(tokenizer_dir_name \<mapsto> tokenizer)\<rparr>,
                                         [PathExists tokenizer_path True,
                                          FromPretrained tokenizer_path True])
                                    | Inl err \<Rightarrow>
                                        (default_tokenizer g, g,
                                         [PathExists tokenizer_path True,
                                          FromPretrained tokenizer_path False,
                                          Warning tokenizer_dir_name]))
                              else (default_tokenizer g, g,
                                    [PathExists tokenizer_path False]))))
      else (default_tokenizer g, g, []))"

text \<open>The dispatch of \<^verbatim>\<open>count_tokens\<close> on the resolved tokenizer.\<close>

definition token_count :: "nat list \<Rightarrow> int" where
  "token_count ids = int (length ids)"

fun count_with :: "tokenizer option \<Rightarrow> string \<Rightarrow> py_error + int" where
  "count_with (Some (TiktokenEncoding encode)) text = map_sum id token_count (encode text False)"
| "count_with (Some (HasEncode truth encode)) text =
     (if truth then map_sum id token_count (encode text False)
      else Inr (int (length text) div FALLBACK_TOKEN_RATIO))"
| "count_with (Some (NoEncode truth)) text = Inr (int (length text) div FALLBACK_TOKEN_RATIO)"
| "count_with None text = Inr (int (length text) div FALLBACK_TOKEN_RATIO)"

definition count_tokens ::
  "process \<Rightarrow> world \<Rightarrow> grid \<Rightarrow> string \<Rightarrow> string \<Rightarrow> (py_error + int) \<times> grid \<times> event list" where
  "count_tokens P W g text model_name =
     (case get_tokenizer P W g model_name of
        (tokenizer, g', events) \<Rightarrow> (count_with tokenizer text, g', events))"

text \<open>A sequence of resolutions on one instance, each in the world it finds.\<close>

fun resolve_all :: "process \<Rightarrow> grid \<Rightarrow> (world \<times> string) list \<Rightarrow> grid \<times> event list" where
  "resolve_all P g [] = (g, [])"
| "resolve_all P g ((W, model_name) # calls) =
     (case get_tokenizer P W g model_name of
        (tokenizer, g', events) \<Rightarrow>
          (case resolve_all P g' calls of
             (g'', later) \<Rightarrow> (g'', events @ later)))"

subsection \<open>The package's import statement\<close>












subsection \<open>Auxiliary notions for the statements on the store\<close>

text \<open>
  What one provider does to a lookup of a parent and tag: it is passed over (\<open>None\<close>), or
  it decides the lookup with a value or with an exception. It is passed over when it has
  no record for the parent and tag, when the record is falsy, and when the interpretation
  of the record's context raises \<^verbatim>\<open>ValueError\<close> or \<^verbatim>\<open>TypeError\<close>.
\<close>

definition provider_outcome ::
  "interp \<Rightarrow> provider_data \<Rightarrow> string \<Rightarrow> string \<Rightarrow> (py_error + int) option" where
  "provider_outcome I provider_data parent_name tag =
     (case tag_data_of provider_data parent_name tag of
        Inl e \<Rightarrow> Some (Inl e)
      | Inr None \<Rightarrow> None
      | Inr (Some tag_data) \<Rightarrow>
          if \<not> truthy tag_data then None
          else (case context_of tag_data of
                  Inl e \<Rightarrow> Some (Inl e)
                | Inr c \<Rightarrow>
                    (case interpret_context I c of
                       Inr n \<Rightarrow> Some (Inr n)
                     | Inl e \<Rightarrow> if e = ValueError \<or> e = TypeError then None else Some (Inl e))))"

text \<open>The outcome of the first provider, in the order of the store, that is not passed
  over.\<close>

definition first_outcome ::
  "interp \<Rightarrow> store \<Rightarrow> string \<Rightarrow> string \<Rightarrow> (py_error + int) option" where
  "first_outcome I data parent_name tag =
     (case List.map_filter (\<lambda>pd. provider_outcome I pd parent_name tag) (map snd data) of
        [] \<Rightarrow> None
      | r # rs \<Rightarrow> Some r)"

text \<open>The integer the \<^verbatim>\<open>try\<close> block reads from a context value, before it decides
  whether to multiply.\<close>

definition parsed_int :: "interp \<Rightarrow> json \<Rightarrow> py_error + int" where
  "parsed_int I c =
     (case py_str I c of
        Inl e \<Rightarrow> Inl e
      | Inr text \<Rightarrow>
          if 75 \<in> set (upper I text) then int_of_str I (remove_cp 75 (upper I text))
          else py_int I c)"

fun positive_result :: "py_error + int \<Rightarrow> bool" where
  "positive_result (Inr n) = (0 < n)"
| "positive_result (Inl e) = False"

subsection \<open>Concrete stores\<close>

text \<open>The store of the repository's tests (\<^verbatim>\<open>MOCK_DB_DATA\<close>).\<close>

definition mock_store :: store where
  "mock_store =
     [(''ollama'',
       [(''llama3.1'',
           [(''parent_model'', JStr (ascii ''llama3.1'')),
            (''variants'', JObj [(''latest'', JObj [(''context'', JStr (ascii ''128K''))]),
                                 (''8b'', JObj [(''context'', JInt 128)])])]),
        (''gemma'',
           [(''parent_model'', JStr (ascii ''gemma'')),
            (''variants'', JObj [(''latest'', JObj [(''context'', JInt 8192)]),
                                 (''2b'', JObj [(''context'', JStr (ascii ''N/A''))])])]),
        (''phi-3'',
           [(''parent_model'', JStr (ascii ''phi-3'')),
            (''variants'', JObj [(''mini'', JObj [])])])])]"

text \<open>One provider whose context values are zero and negative, and one whose
  \<^verbatim>\<open>variants\<close> field is \<^verbatim>\<open>null\<close>.\<close>

definition nonpositive_store :: store where
  "nonpositive_store =
     [(''ollama'',
       [(''m'',
           [(''parent_model'', JStr (ascii ''m'')),
            (''variants'', JObj [(''zero'', JObj [(''context'', JInt 0)]),
                                 (''neg'', JObj [(''context'', JStr (ascii ''-5K''))])])])])]"

definition null_variants_store :: store where
  "null_variants_store =
     [(''ollama'',
       [(''m'', [(''parent_model'', JStr (ascii ''m'')), (''variants'', JNull)])])]"

text \<open>Two providers with the same parent and tag; the first one's value does not parse.\<close>

definition na_then_number :: store where
  "na_then_number =
     [(''first'',
       [(''gemma'',
           [(''parent_model'', JStr (ascii ''gemma'')),
            (''variants'', JObj [(''2b'', JObj [(''context'', JStr (ascii ''N/A''))])])])]),
      (''second'',
       [(''gemma'',
           [(''parent_model'', JStr (ascii ''gemma'')),
            (''variants'', JObj [(''2b'', JObj [(''context'', JInt 2048)])])])])]"

definition unknown_then_32k :: store where
  "unknown_then_32k =
     [(''first'',
       [(''qwen'',
           [(''parent_model'', JStr (ascii ''qwen'')),
            (''variants'', JObj [(''7b'', JObj [(''context'', JStr (ascii ''unknown''))])])])]),
      (''second'',
       [(''qwen'',
           [(''parent_model'', JStr (ascii ''qwen'')),
            (''variants'', JObj [(''7b'', JObj [(''context'', JStr (ascii ''32K''))])])])])]"

text \<open>Four providers: without the parent, with an empty record, with a value that does
  not parse, and with a value.\<close>

definition four_providers :: store where
  "four_providers =
     [(''a'',
       [(''other'', [(''parent_model'', JStr (ascii ''other'')), (''variants'', JObj [])])]),
      (''b'',
       [(''phi'',
           [(''parent_model'', JStr (ascii ''phi'')),
            (''variants'', JObj [(''mini'', JObj [])])])]),
      (''c'',
       [(''phi'',
           [(''parent_model'', JStr (ascii ''phi'')),
            (''variants'', JObj [(''mini'', JObj [(''context'', JStr (ascii ''N/A''))])])])]),
      (''d'',
       [(''phi'',
           [(''parent_model'', JStr (ascii ''phi'')),
            (''variants'', JObj [(''mini'', JObj [(''context'', JStr (ascii ''4K''))])])])])]"

text \<open>A value written after a no-break space (U+00A0), followed by a provider with
  another value; and a context that is the float infinity, as \<^verbatim>\<open>json.load\<close> reads
  \<^verbatim>\<open>1e400\<close>.\<close>

definition nbsp_store :: store where
  "nbsp_store =
     [(''first'',
       [(''m'',
           [(''parent_model'', JStr (ascii ''m'')),
            (''variants'', JObj [(''t'', JObj [(''context'', JStr [160, 53])])])])]),
      (''second'',
       [(''m'',
           [(''parent_model'', JStr (ascii ''m'')),
            (''variants'', JObj [(''t'', JObj [(''context'', JInt 4242)])])])])]"

definition infinite_store :: store where
  "infinite_store =
     [(''ollama'',
       [(''m'',
           [(''parent_model'', JStr (ascii ''m'')),
            (''variants'', JObj [(''t'', JObj [(''context'', JFloat (Infinite False))])])])])]"

subsection \<open>Auxiliary notions for the tokenizer statements\<close>

text \<open>An iteration order of \<^verbatim>\<open>TOKENIZER_MAP\<close>: every member once.\<close>

definition visits_map :: "string list \<Rightarrow> bool" where
  "visits_map order = (distinct order \<and> set order = set TOKENIZER_MAP)"

text \<open>The function behind a tokenizer's \<^verbatim>\<open>encode\<close>, when it has one, and its totality on
  the call \<^verbatim>\<open>count_tokens\<close> makes.\<close>

fun encoder_of :: "tokenizer \<Rightarrow> (string \<Rightarrow> bool \<Rightarrow> py_error + nat list) option" where
  "encoder_of (TiktokenEncoding encode) = Some encode"
| "encoder_of (HasEncode truth encode) = Some encode"
| "encoder_of (NoEncode truth) = None"

definition encode_total :: "tokenizer \<Rightarrow> bool" where
  "encode_total tk =
     (case encoder_of tk of
        None \<Rightarrow> True
      | Some encode \<Rightarrow> (\<forall>text. \<exists>ids. encode text False = Inr ids))"

text \<open>The calls to \<^verbatim>\<open>from_pretrained\<close> on a path in a trace, and those that returned.\<close>

definition load_calls :: "string \<Rightarrow> event list \<Rightarrow> event list" where
  "load_calls path events =
     filter (\<lambda>e. e = FromPretrained path True \<or> e = FromPretrained path False) events"

definition successful_loads :: "string \<Rightarrow> event list \<Rightarrow> nat" where
  "successful_loads path events = length (filter (\<lambda>e. e = FromPretrained path True) events)"

subsection \<open>Concrete processes, worlds and instances\<close>

text \<open>A package directory; the members of the set in the order of the source text, and
  in an order that visits \<^verbatim>\<open>llama\<close> first.\<close>

definition source_order :: process where
  "source_order = \<lparr>base_path = ''/pkg/localgrid'', family_order = TOKENIZER_MAP\<rparr>"

definition llama_first :: process where
  "llama_first =
     \<lparr>base_path = ''/pkg/localgrid'',
      family_order = ''llama'' # remove1 ''llama'' TOKENIZER_MAP\<rparr>"

text \<open>A tokenizer that yields one token per character, the same with a truth value of
  false, and worlds in which the bundled directories exist and load, load the falsy
  tokenizer, exist and fail to load, or do not exist.\<close>

definition char_tokenizer :: tokenizer where
  "char_tokenizer = HasEncode True (\<lambda>text special. Inr (map of_char text))"

definition falsy_tokenizer :: tokenizer where
  "falsy_tokenizer = HasEncode False (\<lambda>text special. Inr (map of_char text))"

definition world_falsy :: world where
  "world_falsy = \<lparr>path_exists = (\<lambda>path. True), from_pretrained = (\<lambda>path. Inr falsy_tokenizer)\<rparr>"

definition world_loading :: world where
  "world_loading = \<lparr>path_exists = (\<lambda>path. True), from_pretrained = (\<lambda>path. Inr char_tokenizer)\<rparr>"

definition world_failing :: world where
  "world_failing =
     \<lparr>path_exists = (\<lambda>path. True),
      from_pretrained = (\<lambda>path. Inl (OtherException ''cannot load''))\<rparr>"

definition world_missing :: world where
  "world_missing =
     \<lparr>path_exists = (\<lambda>path. False), from_pretrained = (\<lambda>path. Inr char_tokenizer)\<rparr>"

text \<open>A fresh instance with an empty store whose default encoding could not be built,
  and one whose default encoding yields one token for every two characters.\<close>

definition bare_grid :: grid where
  "bare_grid = init_grid [] (Inl (OtherException ''no default encoding''))"

definition pair_encoding :: "string \<Rightarrow> bool \<Rightarrow> py_error + nat list" where
  "pair_encoding text special = Inr (replicate ((length text + 1) div 2) 0)"

definition pair_grid :: grid where
  "pair_grid = init_grid [] (Inr pair_encoding)"

section \<open>Properties\<close>

subsection \<open>Strings and integers\<close>

lemmas eval_defs = get_model_token_limit_def has_sep_def split_first_def tag_data_of_def
  context_of_def interpret_context_def upper_def upper_cp_def remove_cp_def int_of_str_def
  is_space_def is_digit_def digits_value_def digit_val_def ascii_def over_limit_def
  DEFAULT_TOKEN_LIMIT_def Let_def

lemma upper_cp_ascii:
  "c < 128 \<Longrightarrow> 75 \<in> set (upper_cp I c) \<longleftrightarrow> c = 75 \<or> c = 107"
  by (auto simp: upper_cp_def)

text \<open>On ASCII text the test \<^verbatim>\<open>'K' in str(x).upper()\<close> is the case-insensitive search
  for the letter.\<close>

lemma K_in_upper_ascii:
  "list_all (\<lambda>c. c < 128) s \<Longrightarrow> 75 \<in> set (upper I s) \<longleftrightarrow> 75 \<in> set s \<or> 107 \<in> set s"
  by (induction s) (auto simp: upper_def upper_cp_ascii)

lemma str_of_nonneg_digits: "0 \<le> n \<Longrightarrow> c \<in> set (str_of_nonneg n) \<Longrightarrow> is_digit c"
proof (induction n arbitrary: c rule: str_of_nonneg.induct)
  case (1 n)
  show ?case
  proof (cases "n < 10")
    case True
    with "1.prems" have "c = 48 + nat n"
      by (simp add: str_of_nonneg.simps [of n])
    with True "1.prems" show ?thesis
      by (simp add: is_digit_def)
  next
    case False
    have "is_digit (48 + nat (n mod 10))"
      by (simp add: is_digit_def nat_le_iff)
    moreover from False "1.prems"
    have "c \<in> set (str_of_nonneg (n div 10)) \<or> c = 48 + nat (n mod 10)"
      by (auto simp: str_of_nonneg.simps [of n])
    moreover from "1.prems" have "0 \<le> n div 10" by simp
    ultimately show ?thesis
      using False "1.IH" by blast
  qed
qed

lemma length_str_of_nonneg:
  "0 \<le> n \<Longrightarrow> n < 10 ^ k \<Longrightarrow> 0 < k \<Longrightarrow> length (str_of_nonneg n) \<le> k"
proof (induction n arbitrary: k rule: str_of_nonneg.induct)
  case (1 n)
  show ?case
  proof (cases "n < 10")
    case True
    with "1.prems" show ?thesis by (simp add: str_of_nonneg.simps [of n])
  next
    case False
    with "1.prems" have "1 < k"
      by (cases "k = 1") auto
    then obtain j where k: "k = Suc j" and j: "0 < j"
      by (cases k) auto
    from "1.prems" k have "n div 10 < 10 ^ j" by simp
    moreover from "1.prems" have "0 \<le> n div 10" by simp
    ultimately have "length (str_of_nonneg (n div 10)) \<le> j"
      using False j "1.IH" by blast
    with False k show ?thesis by (simp add: str_of_nonneg.simps [of n])
  qed
qed

text \<open>An integer context value never takes the \<^verbatim>\<open>K\<close> branch, and one of fewer than 640
  digits always has a text.\<close>

lemma str_of_int_no_K:
  assumes "str_of_int I i = Inr s"
  shows "75 \<notin> set (upper I s)"
proof -
  have digits: "c \<noteq> 75 \<and> c \<noteq> 107 \<and> c < 128" if "c \<in> set (str_of_nonneg (abs i))" for c
    using str_of_nonneg_digits [of "abs i" c] that by (auto simp: is_digit_def)
  from assms have s: "s = (if i < 0 then 45 # str_of_nonneg (abs i) else str_of_nonneg (abs i))"
    by (auto simp: str_of_int_def Let_def split: if_splits)
  then have "c \<noteq> 75 \<and> c \<noteq> 107 \<and> c < 128" if "c \<in> set s" for c
    using that digits by (auto split: if_splits)
  then have "list_all (\<lambda>c. c < 128) s" and "75 \<notin> set s" and "107 \<notin> set s"
    by (auto simp: list_all_iff)
  then show ?thesis by (simp add: K_in_upper_ascii)
qed

lemma str_of_int_small:
  assumes "abs i < 10 ^ 639"
  shows "\<exists>s. str_of_int I i = Inr s"
proof -
  have "length (str_of_nonneg (abs i)) \<le> 639"
    using assms by (intro length_str_of_nonneg) simp_all
  then show ?thesis
    by (auto simp: str_of_int_def Let_def over_limit_def)
qed

lemma interpret_context_JInt:
  assumes "abs i < 10 ^ 639"
  shows "interpret_context I (JInt i) = (if i \<le> 1000 then Inr (i * 1024) else Inr i)"
proof -
  from str_of_int_small [OF assms] obtain s where s: "str_of_int I i = Inr s" by blast
  then have "75 \<notin> set (upper I s)" by (rule str_of_int_no_K)
  with s show ?thesis by (simp add: interpret_context_def)
qed

subsection \<open>Which exceptions are raised\<close>

lemma int_of_str_error: "int_of_str I s = Inl e \<Longrightarrow> e = ValueError"
  by (auto simp: int_of_str_def Let_def split: if_splits prod.splits)

lemma py_str_error: "py_str I c = Inl e \<Longrightarrow> e = ValueError"
  by (cases c) (auto simp: str_of_int_def Let_def split: if_splits)

lemma int_of_float_error: "int_of_float f = Inl e \<Longrightarrow> e = OverflowError \<or> e = ValueError"
  by (cases f) auto

lemma py_int_error:
  "py_int I c = Inl e \<Longrightarrow> e = ValueError \<or> e = TypeError \<or> e = OverflowError"
  by (cases c) (auto dest: int_of_str_error int_of_float_error)

lemma interpret_context_error:
  "interpret_context I c = Inl e \<Longrightarrow> e = ValueError \<or> e = TypeError \<or> e = OverflowError"
  by (auto simp: interpret_context_def split: if_splits sum.splits
      dest: int_of_str_error py_int_error py_str_error)

lemma py_get_error: "py_get x key = Inl e \<Longrightarrow> e = AttributeError"
  by (cases x) auto

lemma tag_data_of_error: "tag_data_of pd p t = Inl e \<Longrightarrow> e = AttributeError"
  by (auto simp: tag_data_of_def Let_def dest: py_get_error)

lemma context_of_error: "context_of td = Inl e \<Longrightarrow> e = AttributeError"
  by (auto simp: context_of_def split: sum.splits option.splits dest: py_get_error)

lemma provider_outcome_error:
  "provider_outcome I pd p t = Some (Inl e) \<Longrightarrow> e = AttributeError \<or> e = OverflowError"
  by (auto simp: provider_outcome_def split: sum.splits option.splits if_splits
      dest: tag_data_of_error context_of_error interpret_context_error)

text \<open>The infinite float: when its text has no letter K, which it has not, the conversion
  is reached and its exception is not among those the code catches.\<close>

lemma infinite_float_raises:
  "75 \<notin> set (upper I (float_repr I (Infinite negative))) \<Longrightarrow>
     interpret_context I (JFloat (Infinite negative)) = Inl OverflowError"
  by (simp add: interpret_context_def)

lemma infinite_store_raises:
  assumes "float_repr I (Infinite False) = ascii ''inf''"
  shows "get_model_token_limit I infinite_store ''m:t'' = Inl OverflowError"
proof -
  have "75 \<notin> set (upper I (ascii ''inf''))"
    by (simp add: upper_def upper_cp_def ascii_def)
  with assms have "interpret_context I (JFloat (Infinite False)) = Inl OverflowError"
    by (simp add: infinite_float_raises)
  then show ?thesis
    by (simp add: get_model_token_limit_def has_sep_def split_first_def tag_data_of_def
        context_of_def infinite_store_def)
qed

text \<open>A no-break space before the digits is whitespace to \<^verbatim>\<open>int\<close>.\<close>

lemma nbsp_is_stripped: "uni_space I 160 \<Longrightarrow> int_of_str I [160, 53] = Inr 5"
  by (simp add: eval_defs)

lemma nbsp_store_value:
  assumes "uni_space I 160" and "uni_upper I 160 = [160]"
  shows "get_model_token_limit I nbsp_store ''m:t'' = Inr 5120"
  using assms by (simp add: eval_defs nbsp_store_def)

subsection \<open>The scan over the providers\<close>

lemma scan_providers_step:
  "scan_providers I (pd # pds) p t =
     (case provider_outcome I pd p t of None \<Rightarrow> scan_providers I pds p t | Some r \<Rightarrow> r)"
proof (cases "tag_data_of pd p t")
  case (Inl e)
  then show ?thesis by (simp add: provider_outcome_def)
next
  case (Inr found)
  show ?thesis
  proof (cases found)
    case None
    with Inr show ?thesis by (simp add: provider_outcome_def)
  next
    case (Some td)
    show ?thesis
    proof (cases "context_of td")
      case (Inl e)
      with Inr Some show ?thesis by (simp add: provider_outcome_def)
    next
      case ctx: (Inr c)
      show ?thesis
      proof (cases "interpret_context I c")
        case (Inl e)
        then have "e = ValueError \<or> e = TypeError \<or> e = OverflowError"
          by (rule interpret_context_error)
        with Inl ctx Inr Some show ?thesis by (auto simp: provider_outcome_def)
      next
        case (Inr n)
        with ctx \<open>tag_data_of pd p t = Inr found\<close> Some show ?thesis
          by (simp add: provider_outcome_def)
      qed
    qed
  qed
qed

lemma scan_providers_first:
  "scan_providers I pds p t =
     (case List.map_filter (\<lambda>pd. provider_outcome I pd p t) pds of
        [] \<Rightarrow> Inr DEFAULT_TOKEN_LIMIT | r # rs \<Rightarrow> r)"
proof (induction pds)
  case Nil
  show ?case by (simp add: List.map_filter_simps)
next
  case (Cons pd pds)
  show ?case
    by (cases "provider_outcome I pd p t")
       (simp_all only: scan_providers_step Cons.IH List.map_filter_simps option.case list.case)
qed

lemma limit_is_first_outcome:
  assumes "has_sep model_name" and "split_first model_name = (p, t)"
  shows "get_model_token_limit I data model_name =
           (case first_outcome I data p t of None \<Rightarrow> Inr DEFAULT_TOKEN_LIMIT | Some r \<Rightarrow> r)"
  using assms
  by (simp add: get_model_token_limit_def scan_providers_first first_outcome_def
      split: list.splits)

lemma first_outcome_error:
  "first_outcome I data p t = Some (Inl e) \<Longrightarrow> e = AttributeError \<or> e = OverflowError"
proof -
  assume a: "first_outcome I data p t = Some (Inl e)"
  then obtain rs where "List.map_filter (\<lambda>pd. provider_outcome I pd p t) (map snd data) = Inl e # rs"
    by (auto simp: first_outcome_def split: list.splits)
  then have "Inl e \<in> set (List.map_filter (\<lambda>pd. provider_outcome I pd p t) (map snd data))"
    by simp
  then obtain pd where "provider_outcome I pd p t = Some (Inl e)"
    by (auto simp: List.map_filter_def)
  then show ?thesis by (rule provider_outcome_error)
qed

lemma scan_providers_none:
  "list_all (\<lambda>q. tag_data_of q p t = Inr None) pds \<Longrightarrow>
     scan_providers I pds p t = Inr DEFAULT_TOKEN_LIMIT"
  by (induction pds) simp_all

lemma scan_providers_skip:
  "list_all (\<lambda>q. tag_data_of q p t = Inr None) pre \<Longrightarrow>
     scan_providers I (pre @ pds) p t = scan_providers I pds p t"
  by (induction pre) simp_all

lemma interpret_context_parsed:
  "interpret_context I c =
     (case parsed_int I c of
        Inl e \<Rightarrow> Inl e
      | Inr m \<Rightarrow>
          (case py_str I c of
             Inl e \<Rightarrow> Inl e
           | Inr s \<Rightarrow> if 75 \<in> set (upper I s) \<or> m \<le> 1000 then Inr (m * 1024) else Inr m))"
  by (auto simp: interpret_context_def parsed_int_def split: sum.splits)

lemma interpret_context_sign:
  assumes "interpret_context I c = Inr n"
  shows "\<exists>m. parsed_int I c = Inr m \<and> (n = m * 1024 \<or> n = m) \<and> (0 < n \<longleftrightarrow> 0 < m)"
  using assms
  by (auto simp: interpret_context_parsed split: sum.splits if_splits)

text \<open>A text of 4301 digits under the default limit of 4300 is refused.\<close>

lemma digit_limit_refuses:
  assumes "max_str_digits I = 4300"
  shows "int_of_str I (replicate 4301 48) = Inl ValueError"
proof -
  define s :: ustring where "s = replicate 4301 48"
  have ascii: "list_all (\<lambda>c. c < 128) s"
    by (simp add: s_def list_all_iff)
  have lead: "dropWhile is_space s = s"
    by (simp add: s_def dropWhile_replicate is_space_def)
  have "s = 48 # replicate 4300 48"
    unfolding s_def by (simp add: replicate_Suc [symmetric] del: replicate_Suc)
  then have sign: "(case s of
                      c # cs \<Rightarrow> if c = 43 then (1, cs) else if c = 45 then (- 1, cs)
                               else (1, dropWhile is_space s)
                    | [] \<Rightarrow> (1, dropWhile is_space s)) = (1 :: int, s)"
    using lead by simp
  have body: "takeWhile (\<lambda>c. is_digit c \<or> c = 95) s = s"
    by (simp add: s_def takeWhile_replicate is_digit_def)
  have digits: "filter is_digit s = s"
    by (simp add: s_def filter_replicate is_digit_def)
  have len: "length s = 4301"
    by (simp add: s_def)
  have "over_limit I (length s) (length s)"
    using assms by (simp add: over_limit_def len)
  then have "int_of_str I s = Inl ValueError"
    by (simp add: int_of_str_def Let_def ascii lead sign body digits)
  then show ?thesis by (simp add: s_def)
qed

subsection \<open>The context-window lookup\<close>

lemmas outcome_defs = first_outcome_def provider_outcome_def List.map_filter_simps

text \<open>
  C1 (amended). For every store, interpreter and input string \<^verbatim>\<open>get_model_token_limit\<close>
  returns a positive integer exactly when the identifier has no separator, or no provider
  decides the lookup of its parent and tag (the default 8192), or the first provider that
  decides it decides it with a positive value. A provider's value is \<open>m * 1024\<close> or \<open>m\<close> for
  the integer \<open>m\<close> read from its stored context, and is positive exactly when \<open>m\<close> is: the
  code has no guard of its own, and a stored context that parses to \<open>m \<le> 0\<close> is returned
  as \<open>m * 1024\<close>. The only exceptions that leave the function are \<^verbatim>\<open>AttributeError\<close>
  (a \<^verbatim>\<open>variants\<close> field or a truthy variant record that is not an object) and
  \<^verbatim>\<open>OverflowError\<close> (an infinite float).
\<close>

theorem limit_positive_iff:
  "(positive_result (get_model_token_limit I data model_name)
      \<longleftrightarrow> (\<not> has_sep model_name
           \<or> (case first_outcome I data (fst (split_first model_name))
                                        (snd (split_first model_name)) of
                 None \<Rightarrow> True
               | Some r \<Rightarrow> positive_result r)))
   \<and> (get_model_token_limit I data model_name = Inl e
        \<longrightarrow> e = AttributeError \<or> e = OverflowError)
   \<and> (provider_outcome I pd p t = Some (Inr n)
        \<longrightarrow> (\<exists>td c m. tag_data_of pd p t = Inr (Some td) \<and> context_of td = Inr c
                      \<and> parsed_int I c = Inr m
                      \<and> (n = m * 1024 \<or> n = m) \<and> (0 < n \<longleftrightarrow> 0 < m)))"
proof -
  obtain p' t' where pt: "split_first model_name = (p', t')"
    by (cases "split_first model_name")
  have sign: "positive_result (get_model_token_limit I data model_name)
      \<longleftrightarrow> (\<not> has_sep model_name
           \<or> (case first_outcome I data (fst (split_first model_name))
                                        (snd (split_first model_name)) of
                 None \<Rightarrow> True
               | Some r \<Rightarrow> positive_result r))"
  proof (cases "has_sep model_name")
    case False
    then show ?thesis by (simp add: get_model_token_limit_def DEFAULT_TOKEN_LIMIT_def)
  next
    case True
    from limit_is_first_outcome [OF True pt, of I data] True pt show ?thesis
      by (simp add: DEFAULT_TOKEN_LIMIT_def split: option.splits)
  qed
  have raised: "e = AttributeError \<or> e = OverflowError"
    if r: "get_model_token_limit I data model_name = Inl e"
  proof (cases "has_sep model_name")
    case False
    with r show ?thesis by (simp add: get_model_token_limit_def)
  next
    case True
    from limit_is_first_outcome [OF True pt, of I data] r
    have "first_outcome I data p' t' = Some (Inl e)"
      by (simp split: option.splits)
    then show ?thesis by (rule first_outcome_error)
  qed
  have source: "\<exists>td c m. tag_data_of pd p t = Inr (Some td) \<and> context_of td = Inr c
                      \<and> parsed_int I c = Inr m
                      \<and> (n = m * 1024 \<or> n = m) \<and> (0 < n \<longleftrightarrow> 0 < m)"
    if o: "provider_outcome I pd p t = Some (Inr n)"
  proof -
    from o obtain td c where td: "tag_data_of pd p t = Inr (Some td)"
      and c: "context_of td = Inr c" and n: "interpret_context I c = Inr n"
      by (auto simp: provider_outcome_def split: sum.splits option.splits if_splits)
    from interpret_context_sign [OF n] td c show ?thesis by blast
  qed
  from sign raised source show ?thesis by blast
qed

text \<open>On the store of the tests the lookup of \<^verbatim>\<open>llama3.1:latest\<close> is decided by the value
  131072, and the limit is positive.\<close>

theorem limit_positive_iff_witness:
  "\<forall>I. positive_result (get_model_token_limit I mock_store ''llama3.1:latest'')"
proof
  fix I
  have "first_outcome I mock_store (fst (split_first ''llama3.1:latest''))
          (snd (split_first ''llama3.1:latest'')) = Some (Inr 131072)"
    by (simp add: eval_defs outcome_defs mock_store_def)
  with limit_positive_iff [of I mock_store "''llama3.1:latest''"]
  show "positive_result (get_model_token_limit I mock_store ''llama3.1:latest'')"
    by simp
qed

text \<open>C1 as stated fails: a stored context of \<open>0\<close> gives the limit \<open>0\<close>, the stored text
  \<^verbatim>\<open>-5K\<close> gives \<open>-5120\<close>, and a \<^verbatim>\<open>variants\<close> field that is \<^verbatim>\<open>null\<close> raises.\<close>

theorem limit_not_positive:
  "\<forall>I. get_model_token_limit I nonpositive_store ''m:zero'' = Inr 0
       \<and> get_model_token_limit I nonpositive_store ''m:neg'' = Inr (- 5120)
       \<and> get_model_token_limit I null_variants_store ''m:zero'' = Inl AttributeError"
proof
  fix I
  have "interpret_context I (JInt 0) = Inr 0"
    by (simp add: interpret_context_JInt)
  then have "get_model_token_limit I nonpositive_store ''m:zero'' = Inr 0"
    by (simp add: get_model_token_limit_def has_sep_def split_first_def tag_data_of_def
        context_of_def nonpositive_store_def)
  moreover have "get_model_token_limit I nonpositive_store ''m:neg'' = Inr (- 5120)"
    by (simp add: eval_defs nonpositive_store_def)
  moreover have "get_model_token_limit I null_variants_store ''m:zero'' = Inl AttributeError"
    by (simp add: eval_defs null_variants_store_def)
  ultimately show "get_model_token_limit I nonpositive_store ''m:zero'' = Inr 0
       \<and> get_model_token_limit I nonpositive_store ''m:neg'' = Inr (- 5120)
       \<and> get_model_token_limit I null_variants_store ''m:zero'' = Inl AttributeError"
    by blast
qed

text \<open>
  C2 (amended). Let the identifier have a separator and let \<open>pd\<close> be the first provider
  that holds its parent and tag, with variant record \<open>td\<close>. If \<open>td\<close> is truthy, its context
  value (\<^verbatim>\<open>8K\<close> when the field is absent, so \<open>8192\<close>) is interpreted thus: if the upper-cased
  text of the value contains the letter K (on ASCII text: if the text contains K in either
  case), the K's are stripped and the remaining integer is multiplied by 1024; else if
  the value is an integer at most 1000 it is multiplied by 1024; else if it is an integer
  above 1000 it is the result. A value that does not parse, and a falsy variant record,
  are passed over: the result is that of the scan of the providers after \<open>pd\<close>, which is
  the default 8192 when none of them holds the parent and tag. A truthy record that is
  not an object, and an infinite float, raise.
\<close>

theorem context_rule_first_found:
  assumes "has_sep model_name"
    and "split_first model_name = (p, t)"
    and "map snd data = pre @ pd # post"
    and "list_all (\<lambda>q. tag_data_of q p t = Inr None) pre"
    and "tag_data_of pd p t = Inr (Some td)"
  shows "get_model_token_limit I data model_name =
           (if \<not> truthy td then scan_providers I post p t
            else (case context_of td of
                    Inl e \<Rightarrow> Inl e
                  | Inr c \<Rightarrow>
                      (case py_str I c of
                         Inl e \<Rightarrow> scan_providers I post p t
                       | Inr s \<Rightarrow>
                           if 75 \<in> set (upper I s)
                           then (case int_of_str I (remove_cp 75 (upper I s)) of
                                   Inr n \<Rightarrow> Inr (n * 1024)
                                 | Inl e \<Rightarrow> scan_providers I post p t)
                           else (case py_int I c of
                                   Inr n \<Rightarrow> if n \<le> 1000 then Inr (n * 1024) else Inr n
                                 | Inl e \<Rightarrow> if e = OverflowError then Inl e
                                            else scan_providers I post p t))))
         \<and> (list_all (\<lambda>x. x < 128) s
              \<longrightarrow> (75 \<in> set (upper I s)) = (75 \<in> set s \<or> 107 \<in> set s))
         \<and> (td = JObj v \<and> v \<noteq> [] \<and> map_of v ''context'' = None
              \<longrightarrow> get_model_token_limit I data model_name = Inr 8192)
         \<and> (list_all (\<lambda>q. tag_data_of q p t = Inr None) post
              \<longrightarrow> scan_providers I post p t = Inr 8192)"
proof -
  have lim: "get_model_token_limit I data model_name = scan_providers I (pd # post) p t"
    using assms(1-4) by (simp add: get_model_token_limit_def scan_providers_skip)
  have rule: "scan_providers I (pd # post) p t =
           (if \<not> truthy td then scan_providers I post p t
            else (case context_of td of
                    Inl e \<Rightarrow> Inl e
                  | Inr c \<Rightarrow>
                      (case py_str I c of
                         Inl e \<Rightarrow> scan_providers I post p t
                       | Inr s \<Rightarrow>
                           if 75 \<in> set (upper I s)
                           then (case int_of_str I (remove_cp 75 (upper I s)) of
                                   Inr n \<Rightarrow> Inr (n * 1024)
                                 | Inl e \<Rightarrow> scan_providers I post p t)
                           else (case py_int I c of
                                   Inr n \<Rightarrow> if n \<le> 1000 then Inr (n * 1024) else Inr n
                                 | Inl e \<Rightarrow> if e = OverflowError then Inl e
                                            else scan_providers I post p t))))"
  proof (cases "truthy td")
    case False
    with assms(5) show ?thesis by simp
  next
    case True
    show ?thesis
    proof (cases "context_of td")
      case (Inl e)
      with assms(5) True show ?thesis by simp
    next
      case (Inr c)
      have step: "scan_providers I (pd # post) p t =
            (case interpret_context I c of
               Inr n \<Rightarrow> Inr n
             | Inl e \<Rightarrow> if e = ValueError \<or> e = TypeError then scan_providers I post p t
                        else Inl e)"
        using assms(5) True Inr
        by (simp add: scan_providers_step provider_outcome_def del: scan_providers.simps
            split: sum.splits)
      show ?thesis
      proof (cases "py_str I c")
        case bad: (Inl e)
        then have "interpret_context I c = Inl ValueError"
          using py_str_error [OF bad] by (simp add: interpret_context_def)
        with step True Inr bad show ?thesis by simp
      next
        case str: (Inr s)
        show ?thesis
        proof (cases "75 \<in> set (upper I s)")
          case k: True
          show ?thesis
          proof (cases "int_of_str I (remove_cp 75 (upper I s))")
            case (Inl e)
            then have "interpret_context I c = Inl ValueError"
              using int_of_str_error [OF Inl] str k by (simp add: interpret_context_def)
            with step True Inr str k Inl show ?thesis by simp
          next
            case val: (Inr n)
            then have "interpret_context I c = Inr (n * 1024)"
              using str k by (simp add: interpret_context_def)
            with step True Inr str k val show ?thesis by simp
          qed
        next
          case nk: False
          show ?thesis
          proof (cases "py_int I c")
            case (Inl e)
            then have i: "interpret_context I c = Inl e"
              using str nk by (simp add: interpret_context_def)
            from py_int_error [OF Inl] have "e = ValueError \<or> e = TypeError \<or> e = OverflowError" .
            with step i True Inr str nk Inl show ?thesis by auto
          next
            case val: (Inr n)
            then have "interpret_context I c = (if n \<le> 1000 then Inr (n * 1024) else Inr n)"
              using str nk by (simp add: interpret_context_def)
            with step True Inr str nk val show ?thesis by simp
          qed
        qed
      qed
    qed
  qed
  have absent: "get_model_token_limit I data model_name = Inr 8192"
    if "td = JObj v" and "v \<noteq> []" and "map_of v ''context'' = None"
  proof -
    from that have "context_of td = Inr (JStr (ascii ''8K''))" and "truthy td"
      by (simp_all add: context_of_def)
    moreover have "interpret_context I (JStr (ascii ''8K'')) = Inr 8192"
      by (simp add: eval_defs)
    ultimately show ?thesis using lim assms(5) by simp
  qed
  have rest: "scan_providers I post p t = Inr 8192"
    if "list_all (\<lambda>q. tag_data_of q p t = Inr None) post"
    using that by (simp add: scan_providers_none DEFAULT_TOKEN_LIMIT_def)
  have letter: "(75 \<in> set (upper I s)) = (75 \<in> set s \<or> 107 \<in> set s)"
    if "list_all (\<lambda>x. x < 128) s"
    using that by (rule K_in_upper_ascii)
  from lim rule absent rest letter show ?thesis by simp
qed

text \<open>The first fixture of the tests: \<^verbatim>\<open>128K\<close> under \<^verbatim>\<open>llama3.1:latest\<close> is 131072.\<close>

theorem context_rule_first_found_witness:
  "\<forall>I. get_model_token_limit I mock_store ''llama3.1:latest'' = Inr 131072"
proof
  fix I
  have h1: "has_sep ''llama3.1:latest''" by code_simp
  have h2: "split_first ''llama3.1:latest'' = (''llama3.1'', ''latest'')" by code_simp
  have h3: "map snd mock_store = [] @ snd (hd mock_store) # []" by code_simp
  have h4: "list_all (\<lambda>q. tag_data_of q ''llama3.1'' ''latest'' = Inr None) []" by simp
  have h5: "tag_data_of (snd (hd mock_store)) ''llama3.1'' ''latest''
              = Inr (Some (JObj [(''context'', JStr (ascii ''128K''))]))" by code_simp
  have c: "context_of (JObj [(''context'', JStr (ascii ''128K''))]) = Inr (JStr (ascii ''128K''))"
    by code_simp
  have k: "75 \<in> set (upper I (ascii ''128K''))"
    by (simp add: eval_defs)
  have i: "int_of_str I (remove_cp 75 (upper I (ascii ''128K''))) = Inr 128"
    by (simp add: eval_defs)
  from context_rule_first_found [OF h1 h2 h3 h4 h5, of I] c k i
  show "get_model_token_limit I mock_store ''llama3.1:latest'' = Inr 131072"
    by simp
qed

text \<open>C2 as stated fails: the parent and tag are found, the stored value \<^verbatim>\<open>N/A\<close> does
  not parse, and the result is not the default but the value of a later provider.\<close>

theorem unparseable_not_default:
  "\<forall>I. tag_data_of (snd (hd na_then_number)) ''gemma'' ''2b''
         = Inr (Some (JObj [(''context'', JStr (ascii ''N/A''))]))
       \<and> interpret_context I (JStr (ascii ''N/A'')) = Inl ValueError
       \<and> get_model_token_limit I na_then_number ''gemma:2b'' = Inr 2048"
proof
  fix I
  have t: "tag_data_of (snd (hd na_then_number)) ''gemma'' ''2b''
         = Inr (Some (JObj [(''context'', JStr (ascii ''N/A''))]))"
    by code_simp
  have n: "interpret_context I (JStr (ascii ''N/A'')) = Inl ValueError"
    by (simp add: eval_defs)
  have "interpret_context I (JInt 2048) = Inr 2048"
    by (simp add: interpret_context_JInt)
  with n have "get_model_token_limit I na_then_number ''gemma:2b'' = Inr 2048"
    by (simp add: get_model_token_limit_def has_sep_def split_first_def tag_data_of_def
        context_of_def na_then_number_def)
  with t n show "tag_data_of (snd (hd na_then_number)) ''gemma'' ''2b''
         = Inr (Some (JObj [(''context'', JStr (ascii ''N/A''))]))
       \<and> interpret_context I (JStr (ascii ''N/A'')) = Inl ValueError
       \<and> get_model_token_limit I na_then_number ''gemma:2b'' = Inr 2048"
    by blast
qed

text \<open>
  C3 (amended). For every identifier with a separator, \<^verbatim>\<open>get_model_token_limit\<close> scans the
  providers in the order of the store and returns the outcome of the first provider that
  decides the lookup: the interpreted context of a truthy variant record whose context the
  rule can interpret, or the exception it raises. A provider without a record for the
  parent and tag, with a falsy record, or with a context that fails to parse is passed
  over and the later providers are still consulted; the default 8192 is returned when
  every provider is passed over.
\<close>

theorem first_yielding_provider:
  assumes "has_sep model_name" and "split_first model_name = (p, t)"
  shows "get_model_token_limit I data model_name =
           (case List.map_filter (\<lambda>pd. provider_outcome I pd p t) (map snd data) of
              [] \<Rightarrow> Inr 8192 | r # rs \<Rightarrow> r)"
  using assms unfolding DEFAULT_TOKEN_LIMIT_def [symmetric]
  by (simp add: get_model_token_limit_def scan_providers_first)

text \<open>Four providers: the first three are passed over (no such parent, an empty record, a
  value that does not parse) and the fourth decides with \<^verbatim>\<open>4K\<close>.\<close>

theorem first_yielding_provider_witness:
  "\<forall>I. map (\<lambda>pd. provider_outcome I pd ''phi'' ''mini'') (map snd four_providers)
         = [None, None, None, Some (Inr 4096)]
       \<and> get_model_token_limit I four_providers ''phi:mini'' = Inr 4096"
proof
  fix I
  have h1: "has_sep ''phi:mini''" by code_simp
  have h2: "split_first ''phi:mini'' = (''phi'', ''mini'')" by code_simp
  have o: "map (\<lambda>pd. provider_outcome I pd ''phi'' ''mini'') (map snd four_providers)
             = [None, None, None, Some (Inr 4096)]"
    by (simp add: eval_defs provider_outcome_def four_providers_def)
  have f: "List.map_filter (\<lambda>pd. provider_outcome I pd ''phi'' ''mini'') (map snd four_providers)
             = [Inr 4096]"
    by (simp add: eval_defs outcome_defs four_providers_def)
  from first_yielding_provider [OF h1 h2, of I four_providers] o f
  show "map (\<lambda>pd. provider_outcome I pd ''phi'' ''mini'') (map snd four_providers)
         = [None, None, None, Some (Inr 4096)]
       \<and> get_model_token_limit I four_providers ''phi:mini'' = Inr 4096"
    by simp
qed

text \<open>C3 as stated fails: the first provider holding \<^verbatim>\<open>qwen:7b\<close> stores \<^verbatim>\<open>unknown\<close>,
  which does not parse, and the value \<^verbatim>\<open>32K\<close> of the second provider is returned.\<close>

theorem later_provider_used:
  "\<forall>I. tag_data_of (snd (hd unknown_then_32k)) ''qwen'' ''7b''
         = Inr (Some (JObj [(''context'', JStr (ascii ''unknown''))]))
       \<and> interpret_context I (JStr (ascii ''unknown'')) = Inl ValueError
       \<and> get_model_token_limit I unknown_then_32k ''qwen:7b'' = Inr 32768"
proof
  fix I
  have t: "tag_data_of (snd (hd unknown_then_32k)) ''qwen'' ''7b''
         = Inr (Some (JObj [(''context'', JStr (ascii ''unknown''))]))"
    by code_simp
  have n: "interpret_context I (JStr (ascii ''unknown'')) = Inl ValueError"
    by (simp add: eval_defs)
  have g: "get_model_token_limit I unknown_then_32k ''qwen:7b'' = Inr 32768"
    by (simp add: eval_defs unknown_then_32k_def)
  from t n g show "tag_data_of (snd (hd unknown_then_32k)) ''qwen'' ''7b''
         = Inr (Some (JObj [(''context'', JStr (ascii ''unknown''))]))
       \<and> interpret_context I (JStr (ascii ''unknown'')) = Inl ValueError
       \<and> get_model_token_limit I unknown_then_32k ''qwen:7b'' = Inr 32768"
    by blast
qed

subsection \<open>Resolving a tokenizer\<close>

lemma no_sep_get_tokenizer:
  "\<not> has_sep model_name \<Longrightarrow> get_tokenizer P W g model_name = (default_tokenizer g, g, [])"
  by (simp add: get_tokenizer_def)

lemma cached_get_tokenizer:
  assumes "has_sep model_name"
    and "detect_family (family_order P) (fst (split_first model_name)) = Some fam"
    and "fam \<noteq> []"
    and "tokenizer_cache g fam = Some tk"
  shows "get_tokenizer P W g model_name = (Some tk, g, [])"
  using assms by (simp add: get_tokenizer_def)

lemma uncached_get_tokenizer:
  assumes "has_sep model_name"
    and "detect_family (family_order P) (fst (split_first model_name)) = Some fam"
    and "fam \<noteq> []"
    and "tokenizer_cache g fam = None"
  shows "get_tokenizer P W g model_name =
           (if path_exists W (tokenizer_path P fam)
            then (case from_pretrained W (tokenizer_path P fam) of
                    Inr tk \<Rightarrow>
                      (Some tk, g\<lparr>tokenizer_cache := (tokenizer_cache g)(fam \<mapsto> tk)\<rparr>,
                       [PathExists (tokenizer_path P fam) True,
                        FromPretrained (tokenizer_path P fam) True])
                  | Inl err \<Rightarrow>
                      (default_tokenizer g, g,
                       [PathExists (tokenizer_path P fam) True,
                        FromPretrained (tokenizer_path P fam) False,
                        Warning fam]))
            else (default_tokenizer g, g, [PathExists (tokenizer_path P fam) False]))"
  using assms by (simp add: get_tokenizer_def Let_def)

lemma detect_family_member:
  "detect_family order family_name = Some fam \<Longrightarrow> fam \<in> set order \<and> sublist fam family_name"
  unfolding detect_family_def by (auto simp: find_Some_iff)

text \<open>The five ways a resolution can go.\<close>

lemma get_tokenizer_cases:
  obtains
    (default) "get_tokenizer P W g model_name = (default_tokenizer g, g, [])"
  | (cached) fam tk where "fam \<in> set (family_order P)" "tokenizer_cache g fam = Some tk"
      "get_tokenizer P W g model_name = (Some tk, g, [])"
  | (missing) fam where "fam \<in> set (family_order P)" "tokenizer_cache g fam = None"
      "get_tokenizer P W g model_name =
         (default_tokenizer g, g, [PathExists (tokenizer_path P fam) False])"
  | (failed) fam where "fam \<in> set (family_order P)" "tokenizer_cache g fam = None"
      "get_tokenizer P W g model_name =
         (default_tokenizer g, g,
          [PathExists (tokenizer_path P fam) True, FromPretrained (tokenizer_path P fam) False,
           Warning fam])"
  | (loaded) fam tk where "fam \<in> set (family_order P)" "tokenizer_cache g fam = None"
      "get_tokenizer P W g model_name =
         (Some tk, g\<lparr>tokenizer_cache := (tokenizer_cache g)(fam \<mapsto> tk)\<rparr>,
          [PathExists (tokenizer_path P fam) True, FromPretrained (tokenizer_path P fam) True])"
proof (cases "has_sep model_name")
  case False
  then show ?thesis using default by (simp add: no_sep_get_tokenizer)
next
  case sep: True
  show ?thesis
  proof (cases "detect_family (family_order P) (fst (split_first model_name))")
    case None
    with sep show ?thesis using default by (simp add: get_tokenizer_def)
  next
    case (Some fam)
    then have mem: "fam \<in> set (family_order P)" by (simp add: detect_family_member)
    show ?thesis
    proof (cases "fam = []")
      case True
      with sep Some show ?thesis using default by (simp add: get_tokenizer_def)
    next
      case ne: False
      show ?thesis
      proof (cases "tokenizer_cache g fam")
        case (Some tk)
        with sep \<open>detect_family (family_order P) (fst (split_first model_name)) = Some fam\<close> ne mem
        show ?thesis using cached [of fam tk] by (simp add: cached_get_tokenizer)
      next
        case None
        note unc = uncached_get_tokenizer
          [OF sep \<open>detect_family (family_order P) (fst (split_first model_name)) = Some fam\<close> ne None,
           of W]
        show ?thesis
        proof (cases "path_exists W (tokenizer_path P fam)")
          case False
          with unc mem None show ?thesis using missing [of fam] by simp
        next
          case True
          show ?thesis
          proof (cases "from_pretrained W (tokenizer_path P fam)")
            case (Inl e)
            with unc True mem None show ?thesis using failed [of fam] by simp
          next
            case (Inr tk)
            with unc True mem None show ?thesis using loaded [of fam tk] by simp
          qed
        qed
      qed
    qed
  qed
qed

subsection \<open>Paths of the bundled tokenizers\<close>

lemma path_join_relative:
  "b \<noteq> [] \<Longrightarrow> hd b \<noteq> CHR ''/'' \<Longrightarrow>
     path_join a b = (if a = [] \<or> last a = CHR ''/'' then a else a @ ''/'') @ b"
  by (simp add: path_join_def)

lemma tokenizer_path_inj:
  assumes "f1 \<noteq> []" "hd f1 \<noteq> CHR ''/''" "f2 \<noteq> []" "hd f2 \<noteq> CHR ''/''"
    and "tokenizer_path P f1 = tokenizer_path P f2"
  shows "f1 = f2"
  using assms unfolding tokenizer_path_def
  by (simp add: path_join_relative [of f1] path_join_relative [of f2] split: if_splits)

lemma TOKENIZER_MAP_relative:
  "fam \<in> set TOKENIZER_MAP \<Longrightarrow> fam \<noteq> [] \<and> hd fam \<noteq> CHR ''/''"
proof -
  have "list_all (\<lambda>f. f \<noteq> [] \<and> hd f \<noteq> CHR ''/'') TOKENIZER_MAP" by code_simp
  then show "fam \<in> set TOKENIZER_MAP \<Longrightarrow> fam \<noteq> [] \<and> hd fam \<noteq> CHR ''/''"
    by (simp add: list_all_iff)
qed

lemma family_path_inj:
  assumes "visits_map (family_order P)"
    and "f1 \<in> set (family_order P)" and "f2 \<in> set TOKENIZER_MAP"
    and "tokenizer_path P f1 = tokenizer_path P f2"
  shows "f1 = f2"
proof -
  from assms(1,2) have "f1 \<in> set TOKENIZER_MAP" by (simp add: visits_map_def)
  with assms(3,4) show ?thesis
    using TOKENIZER_MAP_relative [of f1] TOKENIZER_MAP_relative [of f2]
    by (auto intro: tokenizer_path_inj)
qed

subsection \<open>The cache along a sequence of calls\<close>

lemma load_calls_append [simp]:
  "load_calls path (xs @ ys) = load_calls path xs @ load_calls path ys"
  by (simp add: load_calls_def)

lemma successful_loads_append [simp]:
  "successful_loads path (xs @ ys) = successful_loads path xs + successful_loads path ys"
  by (simp add: successful_loads_def)

text \<open>One call: with the family cached no load on its path is called, and the family
  stays cached.\<close>

lemma get_tokenizer_cached_quiet:
  assumes "visits_map (family_order P)" and "fam \<in> set TOKENIZER_MAP"
    and "tokenizer_cache g fam \<noteq> None"
  shows "load_calls (tokenizer_path P fam) (snd (snd (get_tokenizer P W g model_name))) = []
         \<and> tokenizer_cache (fst (snd (get_tokenizer P W g model_name))) fam \<noteq> None"
proof (cases rule: get_tokenizer_cases [of P W g model_name])
  case default
  with assms(3) show ?thesis by (simp add: load_calls_def)
next
  case (cached d tk)
  with assms(3) show ?thesis by (simp add: load_calls_def)
next
  case (missing d)
  with assms(3) show ?thesis by (simp add: load_calls_def)
next
  case (failed d)
  with assms have "d \<noteq> fam" by auto
  with failed assms have "tokenizer_path P d \<noteq> tokenizer_path P fam"
    using family_path_inj [of P d fam] by blast
  with failed assms(3) show ?thesis by (simp add: load_calls_def)
next
  case (loaded d tk)
  with assms have "d \<noteq> fam" by auto
  with loaded assms have "tokenizer_path P d \<noteq> tokenizer_path P fam"
    using family_path_inj [of P d fam] by blast
  with loaded assms(3) show ?thesis by (simp add: load_calls_def)
qed

lemma resolve_all_cached_quiet:
  assumes "visits_map (family_order P)" and "fam \<in> set TOKENIZER_MAP"
  shows "tokenizer_cache g fam \<noteq> None \<Longrightarrow>
           load_calls (tokenizer_path P fam) (snd (resolve_all P g calls)) = []"
proof (induction calls arbitrary: g)
  case Nil
  show ?case by (simp add: load_calls_def)
next
  case (Cons call calls)
  obtain W model_name where call: "call = (W, model_name)" by (cases call)
  obtain tok g' events where r: "get_tokenizer P W g model_name = (tok, g', events)"
    by (cases "get_tokenizer P W g model_name")
  from get_tokenizer_cached_quiet [OF assms Cons.prems, of W model_name] r
  have quiet: "load_calls (tokenizer_path P fam) events = []"
    and kept: "tokenizer_cache g' fam \<noteq> None" by simp_all
  obtain g'' later where rest: "resolve_all P g' calls = (g'', later)"
    by (cases "resolve_all P g' calls")
  with Cons.IH [OF kept] have "load_calls (tokenizer_path P fam) later = []" by simp
  with quiet call r rest show ?case by simp
qed

lemma successful_le_calls:
  "successful_loads path events \<le> length (load_calls path events)"
  unfolding successful_loads_def load_calls_def
  by (induction events) auto

text \<open>One call: a load on the family's path succeeds at most once, and if it does the
  family is cached afterwards.\<close>

lemma get_tokenizer_single_load:
  assumes "visits_map (family_order P)" and "fam \<in> set TOKENIZER_MAP"
  shows "successful_loads (tokenizer_path P fam) (snd (snd (get_tokenizer P W g model_name))) \<le> 1
         \<and> (successful_loads (tokenizer_path P fam) (snd (snd (get_tokenizer P W g model_name))) = 1
              \<longrightarrow> tokenizer_cache (fst (snd (get_tokenizer P W g model_name))) fam \<noteq> None)"
proof (cases rule: get_tokenizer_cases [of P W g model_name])
  case default
  then show ?thesis by (simp add: successful_loads_def)
next
  case (cached d tk)
  then show ?thesis by (simp add: successful_loads_def)
next
  case (missing d)
  then show ?thesis by (simp add: successful_loads_def)
next
  case (failed d)
  then show ?thesis by (simp add: successful_loads_def)
next
  case (loaded d tk)
  show ?thesis
  proof (cases "tokenizer_path P d = tokenizer_path P fam")
    case True
    with loaded assms have "d = fam" using family_path_inj [of P d fam] by blast
    with loaded show ?thesis by (simp add: successful_loads_def)
  next
    case False
    with loaded show ?thesis by (simp add: successful_loads_def)
  qed
qed

lemma resolve_all_single_load:
  assumes "visits_map (family_order P)" and "fam \<in> set TOKENIZER_MAP"
  shows "successful_loads (tokenizer_path P fam) (snd (resolve_all P g calls)) \<le> 1"
proof (induction calls arbitrary: g)
  case Nil
  show ?case by (simp add: successful_loads_def)
next
  case (Cons call calls)
  obtain W model_name where call: "call = (W, model_name)" by (cases call)
  obtain tok g' events where r: "get_tokenizer P W g model_name = (tok, g', events)"
    by (cases "get_tokenizer P W g model_name")
  obtain g'' later where rest: "resolve_all P g' calls = (g'', later)"
    by (cases "resolve_all P g' calls")
  from get_tokenizer_single_load [OF assms, of W g model_name] r
  have one: "successful_loads (tokenizer_path P fam) events \<le> 1"
    and kept: "successful_loads (tokenizer_path P fam) events = 1 \<Longrightarrow> tokenizer_cache g' fam \<noteq> None"
    by simp_all
  show ?case
  proof (cases "successful_loads (tokenizer_path P fam) events = 1")
    case True
    then have "load_calls (tokenizer_path P fam) (snd (resolve_all P g' calls)) = []"
      using kept resolve_all_cached_quiet [OF assms] by blast
    with rest have "successful_loads (tokenizer_path P fam) later = 0"
      using successful_le_calls [of "tokenizer_path P fam" later] by simp
    with True call r rest show ?thesis by simp
  next
    case False
    with one have "successful_loads (tokenizer_path P fam) events = 0" by simp
    moreover from Cons.IH [of g'] rest
    have "successful_loads (tokenizer_path P fam) later \<le> 1" by simp
    ultimately show ?thesis using call r rest by simp
  qed
qed

subsection \<open>Resolutions on concrete inputs\<close>

lemma llama31_sep: "has_sep ''llama3.1:latest''"
  by code_simp

lemma llama31_family:
  "detect_family (family_order source_order) (fst (split_first ''llama3.1:latest'')) = Some ''llama''"
  by code_simp

lemma llama_path: "tokenizer_path source_order ''llama'' = ''/pkg/localgrid/tokenizers/llama''"
  by code_simp

lemma bare_grid_fields:
  "tokenizer_cache bare_grid = Map.empty" "default_tokenizer bare_grid = None"
  by (simp_all add: bare_grid_def init_grid_def)

lemma pair_grid_fields:
  "tokenizer_cache pair_grid = Map.empty"
  "default_tokenizer pair_grid = Some (TiktokenEncoding pair_encoding)"
  by (simp_all add: pair_grid_def init_grid_def)

lemma llama31_loading:
  "get_tokenizer source_order world_loading bare_grid ''llama3.1:latest'' =
     (Some char_tokenizer,
      bare_grid\<lparr>tokenizer_cache := [''llama'' \<mapsto> char_tokenizer]\<rparr>,
      [PathExists ''/pkg/localgrid/tokenizers/llama'' True,
       FromPretrained ''/pkg/localgrid/tokenizers/llama'' True])"
  using uncached_get_tokenizer [OF llama31_sep llama31_family, of bare_grid world_loading]
  by (simp add: bare_grid_fields llama_path world_loading_def)

lemma llama31_missing:
  "get_tokenizer source_order world_missing pair_grid ''llama3.1:latest'' =
     (Some (TiktokenEncoding pair_encoding), pair_grid,
      [PathExists ''/pkg/localgrid/tokenizers/llama'' False])"
  using uncached_get_tokenizer [OF llama31_sep llama31_family, of pair_grid world_missing]
  by (simp add: pair_grid_fields llama_path world_missing_def)

lemma any_model_default:
  "get_tokenizer source_order world_loading bare_grid ''any-model:latest'' = (None, bare_grid, [])"
proof -
  have "has_sep ''any-model:latest''" by code_simp
  moreover have "detect_family (family_order source_order) (fst (split_first ''any-model:latest''))
                   = None" by code_simp
  ultimately show ?thesis by (simp add: get_tokenizer_def bare_grid_fields)
qed

subsection \<open>Identifiers without a separator\<close>

text \<open>
  C5. For every identifier that contains no separator, \<^verbatim>\<open>get_model_token_limit\<close> returns
  the fixed default 8192 whatever the store holds (no lookup is made), and
  \<^verbatim>\<open>count_tokens\<close> counts with the default tokenizer, or with the heuristic when there is
  none: whatever the iteration order of the families and the state of the file system,
  no path is checked, no tokenizer is loaded and the cache is left as it was.
\<close>

theorem no_separator_defaults:
  assumes "\<not> has_sep model_name"
  shows "get_model_token_limit I data model_name = Inr 8192
         \<and> get_tokenizer P W g model_name = (default_tokenizer g, g, [])
         \<and> count_tokens P W g text model_name = (count_with (default_tokenizer g) text, g, [])"
  using assms
  by (simp add: get_model_token_limit_def DEFAULT_TOKEN_LIMIT_def no_sep_get_tokenizer
      count_tokens_def)

theorem no_separator_defaults_witness:
  "\<forall>I. get_model_token_limit I mock_store ''model-no-colon'' = Inr 8192
       \<and> get_tokenizer source_order world_loading bare_grid ''model-no-colon''
           = (None, bare_grid, [])
       \<and> count_tokens source_order world_loading bare_grid ''hello world'' ''model-no-colon''
           = (Inr 2, bare_grid, [])"
proof
  fix I
  have h: "\<not> has_sep ''model-no-colon''" by code_simp
  have d: "default_tokenizer bare_grid = None" by (simp add: bare_grid_def init_grid_def)
  from no_separator_defaults
         [OF h, of I mock_store source_order world_loading bare_grid "''hello world''"]
  show "get_model_token_limit I mock_store ''model-no-colon'' = Inr 8192
       \<and> get_tokenizer source_order world_loading bare_grid ''model-no-colon''
           = (None, bare_grid, [])
       \<and> count_tokens source_order world_loading bare_grid ''hello world'' ''model-no-colon''
           = (Inr 2, bare_grid, [])"
    by (simp add: d FALLBACK_TOKEN_RATIO_def)
qed

subsection \<open>Counting tokens\<close>

text \<open>
  C4 (amended). When \<^verbatim>\<open>count_tokens\<close> resolves a tokenizer, of a family or the default
  one, that is truthy and has an \<^verbatim>\<open>encode\<close>, the count it returns is the length of that
  tokenizer's encoding of the text, called with the interpretation of special tokens
  disabled. When no tokenizer is available at all, and also when the resolved object is
  falsy or has no \<^verbatim>\<open>encode\<close>, the count is the length of the text divided by 4, rounded
  down.
\<close>

theorem count_tokens_tiers:
  "(fst (get_tokenizer P W g model_name) = Some tk \<and> tokenizer_truthy tk
      \<and> encoder_of tk = Some encode \<and> encode text False = Inr ids
      \<longrightarrow> fst (count_tokens P W g text model_name) = Inr (int (length ids)))
   \<and> (fst (get_tokenizer P W g model_name) = None
       \<or> (fst (get_tokenizer P W g model_name) = Some tk
           \<and> (\<not> tokenizer_truthy tk \<or> encoder_of tk = None))
      \<longrightarrow> fst (count_tokens P W g text model_name) = Inr (int (length text) div 4))"
proof -
  obtain tok g' events where r: "get_tokenizer P W g model_name = (tok, g', events)"
    by (cases "get_tokenizer P W g model_name")
  have "count_with (Some tk) text = Inr (int (length ids))"
    if "tokenizer_truthy tk" and "encoder_of tk = Some encode" and "encode text False = Inr ids"
    using that by (cases tk) (simp_all add: token_count_def)
  moreover have "count_with (Some tk) text = Inr (int (length text) div 4)"
    if "\<not> tokenizer_truthy tk \<or> encoder_of tk = None"
    using that by (cases tk) (auto simp: FALLBACK_TOKEN_RATIO_def)
  ultimately show ?thesis
    using r by (auto simp: count_tokens_def FALLBACK_TOKEN_RATIO_def)
qed

text \<open>The text of the tests, 11 characters: 2 with no tokenizer at all, 11 with the
  one-token-per-character tokenizer of a family, 6 with the default encoding.\<close>

theorem count_tokens_tiers_witness:
  "fst (count_tokens source_order world_loading bare_grid ''hello world'' ''any-model:latest'')
     = Inr 2
   \<and> fst (count_tokens source_order world_loading bare_grid ''hello world'' ''llama3.1:latest'')
     = Inr 11
   \<and> fst (count_tokens source_order world_missing pair_grid ''hello world'' ''llama3.1:latest'')
     = Inr 6"
proof -
  have none: "fst (get_tokenizer source_order world_loading bare_grid ''any-model:latest'') = None"
    by (simp add: any_model_default)
  have fam: "fst (get_tokenizer source_order world_loading bare_grid ''llama3.1:latest'')
               = Some char_tokenizer"
    by (simp add: llama31_loading)
  have dflt: "fst (get_tokenizer source_order world_missing pair_grid ''llama3.1:latest'')
               = Some (TiktokenEncoding pair_encoding)"
    by (simp add: llama31_missing)
  have e1: "encoder_of char_tokenizer = Some (\<lambda>text special. Inr (map of_char text))"
    "tokenizer_truthy char_tokenizer"
    by (simp_all add: char_tokenizer_def)
  have e2: "encoder_of (TiktokenEncoding pair_encoding) = Some pair_encoding"
    "tokenizer_truthy (TiktokenEncoding pair_encoding)"
    by simp_all
  have p: "pair_encoding ''hello world'' False = Inr [0, 0, 0, 0, 0, 0]"
    by code_simp
  from count_tokens_tiers
         [of source_order world_loading bare_grid "''any-model:latest''" _ _ "''hello world''"]
       count_tokens_tiers
         [of source_order world_loading bare_grid "''llama3.1:latest''" char_tokenizer
             "\<lambda>text special. Inr (map of_char text)" "''hello world''" "map of_char ''hello world''"]
       count_tokens_tiers
         [of source_order world_missing pair_grid "''llama3.1:latest''"
             "TiktokenEncoding pair_encoding" pair_encoding "''hello world''" "[0, 0, 0, 0, 0, 0]"]
       none fam dflt e1 e2 p
  show ?thesis by simp
qed

text \<open>C4 as stated fails: a family tokenizer is resolved whose truth value is false; its
  encoding of the text has 11 tokens, and the count returned is 2.\<close>

theorem falsy_tokenizer_not_used:
  "fst (get_tokenizer source_order world_falsy bare_grid ''llama3.1:latest'') = Some falsy_tokenizer
   \<and> encoder_of falsy_tokenizer = Some (\<lambda>text special. Inr (map of_char text))
   \<and> length (map (of_char :: char \<Rightarrow> nat) ''hello world'') = 11
   \<and> fst (count_tokens source_order world_falsy bare_grid ''hello world'' ''llama3.1:latest'')
       = Inr 2"
proof -
  have r: "get_tokenizer source_order world_falsy bare_grid ''llama3.1:latest'' =
     (Some falsy_tokenizer,
      bare_grid\<lparr>tokenizer_cache := [''llama'' \<mapsto> falsy_tokenizer]\<rparr>,
      [PathExists ''/pkg/localgrid/tokenizers/llama'' True,
       FromPretrained ''/pkg/localgrid/tokenizers/llama'' True])"
    using uncached_get_tokenizer [OF llama31_sep llama31_family, of bare_grid world_falsy]
    by (simp add: bare_grid_fields llama_path world_falsy_def)
  then show ?thesis
    by (simp add: count_tokens_def falsy_tokenizer_def FALLBACK_TOKEN_RATIO_def)
qed

text \<open>
  C8. For every text and model identifier \<^verbatim>\<open>count_tokens\<close> returns a non-negative integer
  and raises nothing, provided the \<^verbatim>\<open>encode\<close> of the tokenizer it resolves returns for
  every text.
\<close>

theorem count_tokens_total:
  assumes "case fst (get_tokenizer P W g model_name) of
             None \<Rightarrow> True | Some tk \<Rightarrow> encode_total tk"
  shows "\<exists>n. fst (count_tokens P W g text model_name) = Inr n \<and> 0 \<le> n"
proof -
  obtain tok g' events where r: "get_tokenizer P W g model_name = (tok, g', events)"
    by (cases "get_tokenizer P W g model_name")
  have "\<exists>n. count_with tok text = Inr n \<and> 0 \<le> n"
  proof (cases tok)
    case None
    then show ?thesis by (simp add: FALLBACK_TOKEN_RATIO_def)
  next
    case (Some tk)
    with assms r have total: "encode_total tk" by simp
    show ?thesis
    proof (cases tk)
      case (TiktokenEncoding encode)
      with total obtain ids where "encode text False = Inr ids"
        by (auto simp: encode_total_def)
      with Some TiktokenEncoding show ?thesis by (simp add: token_count_def)
    next
      case (HasEncode truth encode)
      with total obtain ids where "encode text False = Inr ids"
        by (auto simp: encode_total_def)
      with Some HasEncode show ?thesis
        by (auto simp: token_count_def FALLBACK_TOKEN_RATIO_def)
    next
      case (NoEncode truth)
      with Some show ?thesis by (simp add: FALLBACK_TOKEN_RATIO_def)
    qed
  qed
  with r show ?thesis by (simp add: count_tokens_def)
qed

theorem count_tokens_total_witness:
  "\<exists>n. fst (count_tokens source_order world_loading bare_grid ''some text'' ''llama3.1:latest'')
          = Inr n \<and> 0 \<le> n"
proof -
  have "fst (get_tokenizer source_order world_loading bare_grid ''llama3.1:latest'')
          = Some char_tokenizer"
    by (simp add: llama31_loading)
  moreover have "encode_total char_tokenizer"
    by (simp add: encode_total_def char_tokenizer_def)
  ultimately show ?thesis
    using count_tokens_total
            [of source_order world_loading bare_grid "''llama3.1:latest''" "''some text''"]
    by simp
qed

subsection \<open>Family detection\<close>

lemma find_unique:
  assumes "x \<in> set xs" and "Q x" and "\<And>y. y \<in> set xs \<Longrightarrow> Q y \<Longrightarrow> y = x"
  shows "List.find Q xs = Some x"
proof -
  from assms(1,2) have "\<exists>z. z \<in> set xs \<and> Q z" by blast
  then have "List.find Q xs \<noteq> None" by (simp only: find_None_iff not_not)
  then obtain y where y: "List.find Q xs = Some y" by blast
  then obtain i where "i < length xs" and "Q (xs ! i)" and "y = xs ! i"
    unfolding find_Some_iff by blast
  then have "y \<in> set xs" and "Q y" by simp_all
  then have "y = x" by (rule assms(3))
  with y show ?thesis by simp
qed

lemma only_self_inside:
  assumes "kw \<in> set TOKENIZER_MAP" and "kw \<noteq> ''codellama''"
    and "fam \<in> set TOKENIZER_MAP" and "sublist fam kw"
  shows "fam = kw"
proof -
  have "list_all (\<lambda>kw. kw = ''codellama''
            \<or> list_all (\<lambda>fam. \<not> sublist fam kw \<or> fam = kw) TOKENIZER_MAP) TOKENIZER_MAP"
    by code_simp
  then have "\<forall>kw \<in> set TOKENIZER_MAP. kw = ''codellama''
               \<or> (\<forall>fam \<in> set TOKENIZER_MAP. \<not> sublist fam kw \<or> fam = kw)"
    by (simp only: list_all_iff)
  with assms show ?thesis by blast
qed

lemma no_separator_in_family: "kw \<in> set TOKENIZER_MAP \<Longrightarrow> CHR '':'' \<notin> set kw"
proof -
  have "list_all (\<lambda>kw. CHR '':'' \<notin> set kw) TOKENIZER_MAP" by code_simp
  then show "kw \<in> set TOKENIZER_MAP \<Longrightarrow> CHR '':'' \<notin> set kw" by (simp add: list_all_iff)
qed

lemma split_first_keyword:
  "CHR '':'' \<notin> set kw \<Longrightarrow> split_first (kw @ CHR '':'' # rest) = (kw, rest)"
  by (induction kw) (auto simp: split_first_def)

text \<open>Every keyword but \<^verbatim>\<open>codellama\<close> is detected as itself in every iteration order, and
  \<^verbatim>\<open>codellama\<close> is detected as itself or as \<^verbatim>\<open>llama\<close>, whichever the order visits first.\<close>

lemma keyword_detected:
  assumes "visits_map order" and "kw \<in> set TOKENIZER_MAP" and "kw \<noteq> ''codellama''"
  shows "detect_family order (fst (split_first (kw @ CHR '':'' # rest))) = Some kw"
proof -
  from assms(2) have "split_first (kw @ CHR '':'' # rest) = (kw, rest)"
    by (simp add: no_separator_in_family split_first_keyword)
  moreover have "List.find (\<lambda>family. sublist family kw) order = Some kw"
  proof (rule find_unique)
    show "kw \<in> set order" using assms(1,2) by (simp add: visits_map_def)
    show "sublist kw kw" by simp
    show "y = kw" if "y \<in> set order" and "sublist y kw" for y
      using that assms only_self_inside [of kw y] by (simp add: visits_map_def)
  qed
  ultimately show ?thesis by (simp add: detect_family_def)
qed

lemma codellama_detected:
  assumes "visits_map order"
  shows "detect_family order ''codellama'' = Some ''codellama''
         \<or> detect_family order ''codellama'' = Some ''llama''"
proof -
  have "list_all (\<lambda>fam. \<not> sublist fam ''codellama'' \<or> fam = ''codellama'' \<or> fam = ''llama'')
          TOKENIZER_MAP"
    by code_simp
  then have inside: "\<forall>fam \<in> set TOKENIZER_MAP.
                       \<not> sublist fam ''codellama'' \<or> fam = ''codellama'' \<or> fam = ''llama''"
    by (simp only: list_all_iff)
  have "''codellama'' \<in> set TOKENIZER_MAP" by code_simp
  with assms have mem: "''codellama'' \<in> set order" by (simp add: visits_map_def)
  have "sublist ''codellama'' ''codellama''" by simp
  with mem have "\<exists>x. x \<in> set order \<and> sublist x ''codellama''" by blast
  then have "List.find (\<lambda>family. sublist family ''codellama'') order \<noteq> None"
    by (simp only: find_None_iff not_not)
  then obtain fam where f: "detect_family order ''codellama'' = Some fam"
    unfolding detect_family_def by blast
  then have "fam \<in> set order" and "sublist fam ''codellama''"
    by (simp_all add: detect_family_member)
  moreover from assms have "set order = set TOKENIZER_MAP" by (simp add: visits_map_def)
  ultimately have "fam = ''codellama'' \<or> fam = ''llama''"
    using inside by blast
  with f show ?thesis by blast
qed

text \<open>
  C6, at the input where the code departs from it. The identifier \<^verbatim>\<open>codellama:latest\<close>
  in a process whose iteration of the set visits \<^verbatim>\<open>llama\<close> before \<^verbatim>\<open>codellama\<close>: the
  family detected is \<^verbatim>\<open>llama\<close>, and the path checked and loaded is that of \<^verbatim>\<open>llama\<close>,
  which does not contain the keyword.
\<close>

theorem codellama_resolved_as_llama:
  "visits_map (family_order llama_first)
   \<and> detect_family (family_order llama_first) (fst (split_first ''codellama:latest''))
       = Some ''llama''
   \<and> snd (snd (get_tokenizer llama_first world_loading bare_grid ''codellama:latest''))
       = [PathExists ''/pkg/localgrid/tokenizers/llama'' True,
          FromPretrained ''/pkg/localgrid/tokenizers/llama'' True]
   \<and> \<not> sublist ''codellama'' ''/pkg/localgrid/tokenizers/llama''"
  by code_simp

subsection \<open>The tokenizer cache\<close>

text \<open>
  C7 (amended). Once a family's tokenizer is present in the cache, a later resolution
  for an identifier that detects this family returns the cached instance and makes no
  call to the outside (no path check, no load), and no sequence of calls ever calls the
  load on this family's path again. Hence, across any sequence of calls on one instance,
  at most one load of a family's tokenizer succeeds, whatever the identifiers. A load
  that fails leaves the cache as it was and is attempted again by the next call, so
  the number of load calls is not bounded.
\<close>

theorem cache_hit_no_load:
  assumes "visits_map (family_order P)" and "fam \<in> set TOKENIZER_MAP"
  shows "(has_sep model_name
            \<and> detect_family (family_order P) (fst (split_first model_name)) = Some fam
            \<and> tokenizer_cache g fam = Some tk
          \<longrightarrow> get_tokenizer P W g model_name = (Some tk, g, []))
         \<and> (tokenizer_cache g fam \<noteq> None
          \<longrightarrow> load_calls (tokenizer_path P fam) (snd (resolve_all P g calls)) = [])
         \<and> successful_loads (tokenizer_path P fam) (snd (resolve_all P g calls)) \<le> 1"
proof -
  from assms(2) have "fam \<noteq> []" by (simp add: TOKENIZER_MAP_relative)
  then have "get_tokenizer P W g model_name = (Some tk, g, [])"
    if "has_sep model_name"
      and "detect_family (family_order P) (fst (split_first model_name)) = Some fam"
      and "tokenizer_cache g fam = Some tk"
    using that by (simp add: cached_get_tokenizer)
  moreover have "load_calls (tokenizer_path P fam) (snd (resolve_all P g calls)) = []"
    if "tokenizer_cache g fam \<noteq> None"
    using that by (rule resolve_all_cached_quiet [OF assms])
  moreover have "successful_loads (tokenizer_path P fam) (snd (resolve_all P g calls)) \<le> 1"
    by (rule resolve_all_single_load [OF assms])
  ultimately show ?thesis by blast
qed

text \<open>The scenario of the caching test: two identifiers of the \<^verbatim>\<open>llama\<close> family on a fresh
  instance, the directory present and loading; and a resolution with the family cached,
  in a world where the directory is gone.\<close>

theorem cache_hit_no_load_witness:
  "get_tokenizer source_order world_missing
       (bare_grid\<lparr>tokenizer_cache := [''llama'' \<mapsto> char_tokenizer]\<rparr>) ''llama3.1:latest''
     = (Some char_tokenizer, bare_grid\<lparr>tokenizer_cache := [''llama'' \<mapsto> char_tokenizer]\<rparr>, [])
   \<and> successful_loads ''/pkg/localgrid/tokenizers/llama''
         (snd (resolve_all source_order bare_grid
                 [(world_loading, ''llama3.1:latest''), (world_loading, ''llama-3-8b:instruct'')]))
       \<le> 1"
proof -
  have v: "visits_map (family_order source_order)" by code_simp
  have m: "''llama'' \<in> set TOKENIZER_MAP" by code_simp
  have c: "tokenizer_cache (bare_grid\<lparr>tokenizer_cache := [''llama'' \<mapsto> char_tokenizer]\<rparr>) ''llama''
             = Some char_tokenizer" by simp
  from cache_hit_no_load
         [OF v m, of "''llama3.1:latest''"
            "bare_grid\<lparr>tokenizer_cache := [''llama'' \<mapsto> char_tokenizer]\<rparr>"
            char_tokenizer world_missing]
       cache_hit_no_load
         [OF v m, of _ bare_grid _ _
            "[(world_loading, ''llama3.1:latest''), (world_loading, ''llama-3-8b:instruct'')]"]
       llama31_sep llama31_family c
  show ?thesis by (simp add: llama_path)
qed

text \<open>C7 as stated fails: when the load fails, two identifiers of the same family call it
  twice.\<close>

theorem failed_load_called_twice:
  "detect_family (family_order source_order) (fst (split_first ''llama3.1:latest'')) = Some ''llama''
   \<and> detect_family (family_order source_order) (fst (split_first ''llama-3-8b:instruct''))
       = Some ''llama''
   \<and> snd (resolve_all source_order bare_grid
             [(world_failing, ''llama3.1:latest''), (world_failing, ''llama-3-8b:instruct'')])
       = [PathExists ''/pkg/localgrid/tokenizers/llama'' True,
          FromPretrained ''/pkg/localgrid/tokenizers/llama'' False,
          Warning ''llama'',
          PathExists ''/pkg/localgrid/tokenizers/llama'' True,
          FromPretrained ''/pkg/localgrid/tokenizers/llama'' False,
          Warning ''llama'']"
  by code_simp

text \<open>
  C9. When the bundled path of the detected family does not exist, or the tokenizer
  cannot be instantiated from it, \<^verbatim>\<open>_get_tokenizer\<close> returns the default tokenizer, raises
  nothing and leaves the instance, the cache included, as it was; a later call for the
  same family, in whatever state the file system then is, checks the path again and, if
  it exists, calls the load again.
\<close>

theorem failed_load_not_cached:
  assumes "has_sep model_name"
    and "detect_family (family_order P) (fst (split_first model_name)) = Some fam"
    and "fam \<noteq> []"
    and "tokenizer_cache g fam = None"
    and "\<not> path_exists W (tokenizer_path P fam)
         \<or> (\<exists>err. from_pretrained W (tokenizer_path P fam) = Inl err)"
    and "has_sep later_name"
    and "detect_family (family_order P) (fst (split_first later_name)) = Some fam"
  shows "fst (get_tokenizer P W g model_name) = default_tokenizer g
         \<and> fst (snd (get_tokenizer P W g model_name)) = g
         \<and> tokenizer_cache (fst (snd (get_tokenizer P W g model_name))) fam = None
         \<and> snd (snd (get_tokenizer P W' (fst (snd (get_tokenizer P W g model_name))) later_name))
           = (if path_exists W' (tokenizer_path P fam)
              then (case from_pretrained W' (tokenizer_path P fam) of
                      Inr tk \<Rightarrow> [PathExists (tokenizer_path P fam) True,
                                 FromPretrained (tokenizer_path P fam) True]
                    | Inl err \<Rightarrow> [PathExists (tokenizer_path P fam) True,
                                  FromPretrained (tokenizer_path P fam) False,
                                  Warning fam])
              else [PathExists (tokenizer_path P fam) False])"
proof -
  have first: "get_tokenizer P W g model_name =
      (default_tokenizer g, g,
       if path_exists W (tokenizer_path P fam)
       then [PathExists (tokenizer_path P fam) True, FromPretrained (tokenizer_path P fam) False,
             Warning fam]
       else [PathExists (tokenizer_path P fam) False])"
    using uncached_get_tokenizer [OF assms(1-4), of W] assms(5)
    by (auto split: sum.splits)
  have later: "snd (snd (get_tokenizer P W' g later_name))
           = (if path_exists W' (tokenizer_path P fam)
              then (case from_pretrained W' (tokenizer_path P fam) of
                      Inr tk \<Rightarrow> [PathExists (tokenizer_path P fam) True,
                                 FromPretrained (tokenizer_path P fam) True]
                    | Inl err \<Rightarrow> [PathExists (tokenizer_path P fam) True,
                                  FromPretrained (tokenizer_path P fam) False,
                                  Warning fam])
              else [PathExists (tokenizer_path P fam) False])"
    using uncached_get_tokenizer [OF assms(6,7,3,4), of W']
    by (simp split: sum.splits)
  from first later assms(4) show ?thesis by simp
qed

text \<open>A first call that finds no directory and a second that finds it and loads; and a
  first call whose load fails.\<close>

theorem failed_load_not_cached_witness:
  "fst (get_tokenizer source_order world_missing pair_grid ''llama3.1:latest'')
     = Some (TiktokenEncoding pair_encoding)
   \<and> fst (snd (get_tokenizer source_order world_missing pair_grid ''llama3.1:latest'')) = pair_grid
   \<and> snd (snd (get_tokenizer source_order world_loading
         (fst (snd (get_tokenizer source_order world_missing pair_grid ''llama3.1:latest'')))
         ''llama3.1:latest''))
     = [PathExists ''/pkg/localgrid/tokenizers/llama'' True,
        FromPretrained ''/pkg/localgrid/tokenizers/llama'' True]
   \<and> fst (snd (get_tokenizer source_order world_failing pair_grid ''llama3.1:latest'')) = pair_grid"
proof -
  have ne: "''llama'' \<noteq> []" by simp
  have c: "tokenizer_cache pair_grid ''llama'' = None" by (simp add: pair_grid_fields)
  have gone: "\<not> path_exists world_missing (tokenizer_path source_order ''llama'')
              \<or> (\<exists>err. from_pretrained world_missing (tokenizer_path source_order ''llama'') = Inl err)"
    by (simp add: world_missing_def)
  have bad: "\<not> path_exists world_failing (tokenizer_path source_order ''llama'')
              \<or> (\<exists>err. from_pretrained world_failing (tokenizer_path source_order ''llama'') = Inl err)"
    by (simp add: world_failing_def)
  note first = failed_load_not_cached
         [OF llama31_sep llama31_family ne c gone llama31_sep llama31_family, of world_loading]
  note other = failed_load_not_cached
         [OF llama31_sep llama31_family ne c bad llama31_sep llama31_family, of world_loading]
  have e: "path_exists world_loading ''/pkg/localgrid/tokenizers/llama''"
    "from_pretrained world_loading ''/pkg/localgrid/tokenizers/llama'' = Inr char_tokenizer"
    by (simp_all add: world_loading_def)
  have "fst (get_tokenizer source_order world_missing pair_grid ''llama3.1:latest'')
          = Some (TiktokenEncoding pair_encoding)"
    using first [THEN conjunct1] by (simp add: pair_grid_fields)
  moreover have "fst (snd (get_tokenizer source_order world_missing pair_grid ''llama3.1:latest''))
                   = pair_grid"
    by (rule first [THEN conjunct2, THEN conjunct1])
  moreover have "snd (snd (get_tokenizer source_order world_loading
         (fst (snd (get_tokenizer source_order world_missing pair_grid ''llama3.1:latest'')))
         ''llama3.1:latest''))
     = [PathExists ''/pkg/localgrid/tokenizers/llama'' True,
        FromPretrained ''/pkg/localgrid/tokenizers/llama'' True]"
    unfolding first [THEN conjunct2, THEN conjunct2, THEN conjunct2] llama_path
    by (simp add: e)
  moreover have "fst (snd (get_tokenizer source_order world_failing pair_grid ''llama3.1:latest''))
                   = pair_grid"
    by (rule other [THEN conjunct2, THEN conjunct1])
  ultimately show ?thesis by blast
qed

subsection \<open>Importing the package\<close>








end
